theory Spec2Isabelle
  imports Complex_Main
begin

section \<open>Python values shared by both modules\<close>

text \<open>
  The repository is Python 2 code.  Two modules are embedded here:
  \<^item> \<^verbatim>\<open>epitator/structured_incident_annotator.py\<close>: number validation, the table
    interpreter (header detection, column typing) and the incident synthesizer;
  \<^item> \<^verbatim>\<open>annotator/sqlite_import_geonames.py\<close>: the gazetteer importer.

  Strings are \<^typ>\<open>string\<close>; a character is one byte, so the whitespace and case
  functions below cover ASCII, which is all the source's literals use.  Every
  exception the source can raise in the embedded code is a value of \<open>py_error\<close>,
  and a function that may raise returns \<open>py_error + 'a\<close>.
\<close>

datatype py_error = IndexError | TypeError | ValueError | IntegrityError

text \<open>\<^verbatim>\<open>str.isspace\<close> on one ASCII character, also the class \<^verbatim>\<open>\s\<close> of \<^verbatim>\<open>re\<close>.\<close>

definition py_isspace :: "char \<Rightarrow> bool" where
  "py_isspace c = (c \<in> set [CHR 0x09, CHR 0x0A, CHR 0x0B, CHR 0x0C, CHR 0x0D, CHR 0x20])"

text \<open>\<^verbatim>\<open>s.strip()\<close>\<close>

definition py_strip :: "string \<Rightarrow> string" where
  "py_strip s = rev (dropWhile py_isspace (rev (dropWhile py_isspace s)))"

text \<open>\<^verbatim>\<open>s.lower()\<close>\<close>

definition py_lower_char :: "char \<Rightarrow> char" where
  "py_lower_char c =
     (if 65 \<le> (of_char c :: nat) \<and> (of_char c :: nat) \<le> 90
      then char_of ((of_char c :: nat) + 32) else c)"

definition py_lower :: "string \<Rightarrow> string" where
  "py_lower s = map py_lower_char s"

text \<open>\<^verbatim>\<open>s.upper()\<close>\<close>

definition py_upper_char :: "char \<Rightarrow> char" where
  "py_upper_char c =
     (if 97 \<le> (of_char c :: nat) \<and> (of_char c :: nat) \<le> 122
      then char_of ((of_char c :: nat) - 32) else c)"

definition py_upper :: "string \<Rightarrow> string" where
  "py_upper s = map py_upper_char s"

text \<open>\<^verbatim>\<open>sub in s\<close> for strings: \<open>sub\<close> occurs in \<open>s\<close> as a contiguous block.\<close>

fun py_contains :: "string \<Rightarrow> string \<Rightarrow> bool" where
  "py_contains sub [] = (sub = [])"
| "py_contains sub (c # cs) = (take (length sub) (c # cs) = sub \<or> py_contains sub cs)"

section \<open>Number validation (\<^verbatim>\<open>is_valid_number\<close>, \<^verbatim>\<open>is_null\<close>)\<close>

text \<open>
  \<^verbatim>\<open>utils.parse_spelled_number\<close> is imported from a module that is not among the
  sources; it is a parameter of every function that calls it.  It returns a number
  or Python's \<^verbatim>\<open>None\<close>.
\<close>

type_synonym number_parser = "string \<Rightarrow> int option"

text \<open>
  \<^verbatim>\<open>
  def is_valid_number(num_string):
      if num_string[0] == '0' and len(num_string) > 1:
          return False
      value = utils.parse_spelled_number(num_string)
      return value is not None
  \<close>
  \<^verbatim>\<open>num_string[0]\<close> raises \<^verbatim>\<open>IndexError\<close> on the empty string.
\<close>

definition is_valid_number :: "number_parser \<Rightarrow> string \<Rightarrow> py_error + bool" where
  "is_valid_number parse num_string =
     (case num_string of
        [] \<Rightarrow> Inl IndexError
      | c # cs \<Rightarrow>
          if c = CHR ''0'' \<and> length num_string > 1 then Inr False
          else Inr (parse num_string \<noteq> None))"

text \<open>
  \<^verbatim>\<open>
  def is_null(val_string):
      val_string = val_string.strip()
      return val_string == "" or val_string == "-"
  \<close>
\<close>

definition is_null :: "string \<Rightarrow> bool" where
  "is_null val_string = (py_strip val_string = [] \<or> py_strip val_string = ''-'')"

text \<open>
  An instance of the parser parameter for the closed examples of this file: it reads
  a non-empty string of decimal digits and nothing else.
\<close>

definition is_digit :: "char \<Rightarrow> bool" where
  "is_digit c = (48 \<le> (of_char c :: nat) \<and> (of_char c :: nat) \<le> 57)"

definition digits_only_parser :: number_parser where
  "digits_only_parser s =
     (if s \<noteq> [] \<and> list_all is_digit s
      then Some (int (foldl (\<lambda>a c. 10 * a + ((of_char c :: nat) - 48)) 0 s))
      else None)"

section \<open>Spans and tiers\<close>

text \<open>
  An annotated span is a half-open offset range into the document text.  The classes
  \<^verbatim>\<open>AnnoSpan\<close>, \<^verbatim>\<open>SpanGroup\<close> and \<^verbatim>\<open>AnnoTier\<close> are imported from modules that are not
  among the sources.
\<close>

record span =
  span_start :: nat
  span_end :: nat

text \<open>
  Modelled from the spec: \<^verbatim>\<open>AnnoSpan.text\<close> is missing; the spec has a span as
  "a half-open offset range [start, end) into a single backing document", so its text
  is that slice of the document.
\<close>

definition span_text :: "string \<Rightarrow> span \<Rightarrow> string" where
  "span_text doc s = take (span_end s - span_start s) (drop (span_start s) doc)"

section \<open>Numeric span discovery from named entities\<close>

text \<open>
  \<^verbatim>\<open>re.finditer(r'\s(?:to|and|or)\s', text)\<close>: the match, if any, that begins at
  the head of the string, as its length.  The three alternatives begin with
  different letters, so at most one of them applies.
\<close>

definition joiner_at :: "string \<Rightarrow> nat option" where
  "joiner_at s =
     (case s of
        [] \<Rightarrow> None
      | w # rest \<Rightarrow>
          if \<not> py_isspace w then None
          else if take 2 rest = ''to'' \<and> 2 < length rest \<and> py_isspace (rest ! 2) then Some 4
          else if take 3 rest = ''and'' \<and> 3 < length rest \<and> py_isspace (rest ! 3) then Some 5
          else if take 2 rest = ''or'' \<and> 2 < length rest \<and> py_isspace (rest ! 2) then Some 4
          else None)"

text \<open>
  The scan of \<^verbatim>\<open>finditer\<close>: leftmost matches that do not overlap.  \<open>pos\<close> is the
  offset of the head of the remaining string, \<open>skip\<close> the number of characters still
  covered by the last match.
\<close>

fun finditer_scan :: "nat \<Rightarrow> nat \<Rightarrow> string \<Rightarrow> (nat \<times> nat) list" where
  "finditer_scan pos skip [] = []"
| "finditer_scan pos skip (c # cs) =
     (if 0 < skip then finditer_scan (Suc pos) (skip - 1) cs
      else case joiner_at (c # cs) of
             None \<Rightarrow> finditer_scan (Suc pos) 0 cs
           | Some n \<Rightarrow> (pos, pos + n) # finditer_scan (Suc pos) (n - 1) cs)"

definition finditer_joiner :: "string \<Rightarrow> (nat \<times> nat) list" where
  "finditer_joiner text = finditer_scan 0 0 text"

text \<open>
  The body of the loop over \<^verbatim>\<open>spacy_nes\<close> (lines 62 to 76) for one named entity,
  given as its label and its span.  A \<^verbatim>\<open>SpanGroup([s], 'count')\<close> covers the range
  of \<open>s\<close>, so the candidates are returned as spans.
\<close>

definition ne_span_numbers :: "number_parser \<Rightarrow> string \<Rightarrow> string \<times> span \<Rightarrow> py_error + span list" where
  "ne_span_numbers parse doc ne =
     (let ne_label = fst ne; ne_span = snd ne; text = span_text doc ne_span in
      if ne_label \<in> set [''QUANTITY'', ''CARDINAL''] then
        (case is_valid_number parse text of
           Inl e \<Rightarrow> Inl e
         | Inr True \<Rightarrow> Inr [ne_span]
         | Inr False \<Rightarrow>
             (case finditer_joiner text of
                [(a, b)] \<Rightarrow>
                  (let range_start = \<lparr>span_start = span_start ne_span,
                                      span_end = span_start ne_span + a\<rparr>;
                       range_end = \<lparr>span_start = span_start ne_span + b,
                                    span_end = span_end ne_span\<rparr>
                   in case is_valid_number parse (span_text doc range_start) of
                        Inl e \<Rightarrow> Inl e
                      | Inr v1 \<Rightarrow>
                          (case is_valid_number parse (span_text doc range_end) of
                             Inl e \<Rightarrow> Inl e
                           | Inr v2 \<Rightarrow>
                               Inr ((if v1 then [range_start] else []) @
                                    (if v2 then [range_end] else []))))
              | _ \<Rightarrow> Inr []))
      else Inr [])"

fun ne_numbers :: "number_parser \<Rightarrow> string \<Rightarrow> (string \<times> span) list \<Rightarrow> py_error + span list" where
  "ne_numbers parse doc [] = Inr []"
| "ne_numbers parse doc (ne # rest) =
     (case ne_span_numbers parse doc ne of
        Inl e \<Rightarrow> Inl e
      | Inr found \<Rightarrow>
          (case ne_numbers parse doc rest of
             Inl e \<Rightarrow> Inl e
           | Inr others \<Rightarrow> Inr (found @ others)))"

section \<open>Tiers: the operations of the annotation substrate\<close>

text \<open>
  Modelled from the spec: the constructor of \<^verbatim>\<open>AnnoTier\<close> is missing; the spec has
  tiers as "ordered sequences of spans, sorted by start offset unless explicitly
  marked pre-sorted".
\<close>

definition AnnoTier :: "span list \<Rightarrow> span list" where
  "AnnoTier spans = sort_key span_start spans"

text \<open>
  Modelled from the spec: \<^verbatim>\<open>AnnoTier.group_spans_by_containing_span\<close> is missing; the
  spec has it return the "sequence of (outer span, sequence of inner spans fully
  contained within it), preserving outer tier order; an outer span with no contained
  inner spans yields an empty inner sequence", compared "purely by offset range".
\<close>

definition span_contains :: "span \<Rightarrow> span \<Rightarrow> bool" where
  "span_contains outer inner =
     (span_start outer \<le> span_start inner \<and> span_end inner \<le> span_end outer)"

definition group_spans_by_containing_span :: "span list \<Rightarrow> span list \<Rightarrow> (span \<times> span list) list" where
  "group_spans_by_containing_span outer_tier inner_tier =
     map (\<lambda>outer. (outer, filter (span_contains outer) inner_tier)) outer_tier"

text \<open>
  Modelled from the spec: \<^verbatim>\<open>AnnoTier.without_overlaps\<close> is missing; the spec has it
  return "the subsequence of tierA whose spans do not overlap any span in
  excludeTier".  Two half-open ranges overlap when each starts before the other ends.
\<close>

definition span_overlaps :: "span \<Rightarrow> span \<Rightarrow> bool" where
  "span_overlaps a b = (span_start a < span_end b \<and> span_start b < span_end a)"

definition without_overlaps :: "span list \<Rightarrow> span list \<Rightarrow> span list" where
  "without_overlaps tier exclude_tier =
     filter (\<lambda>s. \<not> list_ex (span_overlaps s) exclude_tier) tier"

section \<open>The table interpreter\<close>

text \<open>
  What a cell of an interpreted table holds: \<^verbatim>\<open>None\<close>, the empty list \<^verbatim>\<open>[]\<close>, or
  a \<^verbatim>\<open>SpanGroup\<close> of the entity spans found in the cell.
\<close>

datatype cell_value = PyNone | EmptyList | SpanGroup "span list"

text \<open>
  \<^verbatim>\<open>if not value: continue\<close> skips \<^verbatim>\<open>None\<close> and \<^verbatim>\<open>[]\<close>; a span group is an
  object and counts as true.
\<close>

definition value_truthy :: "cell_value \<Rightarrow> bool" where
  "value_truthy v = (case v of SpanGroup constituents \<Rightarrow> True | _ \<Rightarrow> False)"

text \<open>
  The entity tiers of a document and the dictionary \<^verbatim>\<open>entities_by_type\<close> (lines 89 to
  96).  \<open>numbers\<close> is the tier of line 87: the candidates found among the named
  entities together with the tokens that match \<^verbatim>\<open>[1-9]\d{0,6}\<close> and overlap no named
  entity.  The tiers are given: the annotators that produce them are not among the
  sources.
\<close>

record entity_tiers =
  geonames :: "span list"
  dates :: "span list"
  resolved_keywords :: "span list"
  numbers :: "span list"
  incident_types :: "span list"
  incident_statuses :: "span list"

definition entities_by_type :: "entity_tiers \<Rightarrow> string \<rightharpoonup> span list" where
  "entities_by_type tiers =
     [''geoname'' \<mapsto> geonames tiers,
      ''date'' \<mapsto> dates tiers,
      ''resolved_keyword'' \<mapsto> resolved_keywords tiers,
      ''number'' \<mapsto> numbers tiers,
      ''incident_type'' \<mapsto> incident_types tiers,
      ''incident_status'' \<mapsto> incident_statuses tiers]"

text \<open>
  \<^verbatim>\<open>d.items()\<close>: the entries of a dictionary in its iteration order.  Python 2 fixes
  no order for a \<^verbatim>\<open>dict\<close>; the order of the keys is a parameter.
\<close>

definition dict_items :: "'k list \<Rightarrow> ('k \<rightharpoonup> 'v) \<Rightarrow> ('k \<times> 'v) list" where
  "dict_items key_order d = List.map_filter (\<lambda>k. map_option (Pair k) (d k)) key_order"

text \<open>
  \<^verbatim>\<open>zip(*rows)\<close>: the columns of a list of rows, cut at the shortest row; no rows
  give no columns.
\<close>

definition zip_star :: "'a list list \<Rightarrow> 'a list list" where
  "zip_star rows =
     (if rows = [] then []
      else map (\<lambda>i. map (\<lambda>row. row ! i) rows) [0..<Min (set (map length rows))])"

text \<open>
  Header detection (lines 106 to 115):
  \<^verbatim>\<open>
  first_row = AnnoTier(rows[0])
  header_entities = list(first_row.group_spans_by_containing_span(numbers))
  if all(len(entity_spans) == 0 for header_span, entity_spans in header_entities):
      has_header = True
  else:
      has_header = False
  \<close>
\<close>

definition has_header :: "span list \<Rightarrow> span list \<Rightarrow> bool" where
  "has_header first_row numbers_tier =
     list_all (\<lambda>header_entity. length (snd header_entity) = 0)
       (group_spans_by_containing_span first_row numbers_tier)"

text \<open>
  Column typing (lines 125 to 154).  For one candidate type, the entities of the
  column's cells and the number of cells that hold one:
  \<^verbatim>\<open>
  filtered_value_spans = value_spans
  if value_type == "number":
      filtered_value_spans = value_spans.without_overlaps(dates)
  column_entities = [
      SpanGroup(contained_spans) if len(contained_spans) > 0 else None
      for group_span, contained_spans in
          column_values.group_spans_by_containing_span(filtered_value_spans)]
  num_matches = sum(contained_spans is not None for contained_spans in column_entities)
  \<close>
\<close>

definition filtered_value_spans :: "span list \<Rightarrow> string \<times> span list \<Rightarrow> span list" where
  "filtered_value_spans dates_tier item =
     (if fst item = ''number'' then without_overlaps (snd item) dates_tier else snd item)"

definition column_entities :: "span list \<Rightarrow> span list \<Rightarrow> string \<times> span list \<Rightarrow> cell_value list" where
  "column_entities column_values dates_tier item =
     map (\<lambda>grouped. if length (snd grouped) > 0 then SpanGroup (snd grouped) else PyNone)
       (group_spans_by_containing_span column_values (filtered_value_spans dates_tier item))"

definition num_matches :: "span list \<Rightarrow> span list \<Rightarrow> string \<times> span list \<Rightarrow> nat" where
  "num_matches column_values dates_tier item =
     length (filter (\<lambda>contained_spans. contained_spans \<noteq> PyNone)
       (column_entities column_values dates_tier item))"

text \<open>
  \<^verbatim>\<open>num_non_null_rows > 0 and float(num_matches) / num_non_null_rows > 0.3\<close>.
  The quotient is taken in the reals: for cell counts below \<open>10\<^sup>1\<^sup>5\<close> the double
  nearest to the quotient exceeds the double nearest to 0.3 exactly when the quotient
  exceeds three tenths.
\<close>

definition clears_threshold :: "nat \<Rightarrow> nat \<Rightarrow> bool" where
  "clears_threshold matches num_non_null_rows =
     (num_non_null_rows > 0 \<and> real matches / real num_non_null_rows > 3 / 10)"

text \<open>
  The state of the loop over the candidate types; \<^verbatim>\<open>matching_values\<close> is assigned
  and never read, and is left out.
\<close>

record typing_state =
  max_matches :: nat
  matching_column_entities :: "cell_value list option"
  column_type :: string

definition initial_typing_state :: typing_state where
  "initial_typing_state =
     \<lparr>max_matches = 0, matching_column_entities = None, column_type = ''text''\<rparr>"

text \<open>
  One turn of the loop
  \<^verbatim>\<open>
  for value_type, value_spans in entities_by_type.items():
      ...
      if num_non_null_rows > 0 and float(num_matches) / num_non_null_rows > 0.3:
          if num_matches > max_matches:
              max_matches = num_matches
              matching_values = value_spans
              matching_column_entities = column_entities
              column_type = value_type
      if matching_column_entities is None:
          matching_column_entities = [[] for x in column_values]
  \<close>
\<close>

definition typing_step :: "nat \<Rightarrow> span list \<Rightarrow> span list \<Rightarrow> typing_state \<Rightarrow> string \<times> span list \<Rightarrow> typing_state" where
  "typing_step num_non_null_rows column_values dates_tier st item =
     (let matches = num_matches column_values dates_tier item;
          st1 = (if clears_threshold matches num_non_null_rows \<and> matches > max_matches st
                 then \<lparr>max_matches = matches,
                       matching_column_entities =
                         Some (column_entities column_values dates_tier item),
                       column_type = fst item\<rparr>
                 else st)
      in if matching_column_entities st1 = None
         then st1\<lparr>matching_column_entities := Some (map (\<lambda>x. EmptyList) column_values)\<rparr>
         else st1)"

text \<open>
  The type and the resolved cells of one column:
  \<^verbatim>\<open>
  num_non_null_rows = sum(not is_null(value.text) for value in column_values)
  column_values = AnnoTier(column_values)
  \<close>
  followed by the loop.
\<close>

definition num_non_null_rows :: "string \<Rightarrow> span list \<Rightarrow> nat" where
  "num_non_null_rows doc column_values =
     length (filter (\<lambda>v. \<not> is_null (span_text doc v)) column_values)"

definition determine_column :: "string \<Rightarrow> (string \<times> span list) list \<Rightarrow> span list \<Rightarrow> span list \<Rightarrow> typing_state" where
  "determine_column doc items dates_tier column_values =
     foldl (typing_step (num_non_null_rows doc column_values) (AnnoTier column_values) dates_tier)
       initial_typing_state items"

text \<open>A column definition is a dictionary with the key \<^verbatim>\<open>type\<close> and, under a header, \<^verbatim>\<open>name\<close>.\<close>

record column_definition =
  col_name :: "string option"
  col_type :: string

text \<open>
  \<^verbatim>\<open>
  class Table():
      def __init__(self, column_definitions, rows):
  \<close>
\<close>

record table =
  column_definitions :: "column_definition list"
  rows :: "cell_value list list"

text \<open>
  Column typing, column definitions and the reshaped rows of one table (lines 121 to
  185), given the sorted first row, the outcome of header detection and the data
  rows.  \<^verbatim>\<open>zip(*parsed_column_entities)\<close> raises \<^verbatim>\<open>TypeError\<close> on a column whose
  entities are still \<^verbatim>\<open>None\<close>, which needs a dictionary with no entry.
\<close>

definition typed_table :: "string \<Rightarrow> string list \<Rightarrow> entity_tiers \<Rightarrow> span list \<Rightarrow> bool \<Rightarrow> span list list \<Rightarrow> py_error + table" where
  "typed_table doc key_order tiers first_row header data_rows =
     (let table_by_column = zip_star data_rows;
          typed = map (determine_column doc
                        (dict_items key_order (entities_by_type tiers)) (dates tiers))
                    table_by_column;
          column_types = map column_type typed;
          parsed_column_entities = map matching_column_entities typed;
          definitions =
            (if header
             then map (\<lambda>typed_header.
                         \<lparr>col_name = Some (span_text doc (snd typed_header)),
                          col_type = fst typed_header\<rparr>)
                    (zip column_types first_row)
             else map (\<lambda>ct. \<lparr>col_name = None, col_type = ct\<rparr>) column_types)
      in if list_ex (\<lambda>entities. entities = None) parsed_column_entities
         then Inl TypeError
         else Inr \<lparr>column_definitions = definitions,
                   rows = zip_star (List.map_filter (\<lambda>entities. entities)
                                      parsed_column_entities)\<rparr>)"

text \<open>
  The body of the loop over the detected tables (lines 105 to 185) for one table,
  given as its rows of cell spans.  \<^verbatim>\<open>rows[0]\<close> raises \<^verbatim>\<open>IndexError\<close> when the
  table has no row.
  \<^verbatim>\<open>
  if has_header:
      data_rows = rows[1:]
  else:
      data_rows = rows
  \<close>
\<close>

definition interpret_table :: "string \<Rightarrow> string list \<Rightarrow> entity_tiers \<Rightarrow> span list list \<Rightarrow> py_error + table" where
  "interpret_table doc key_order tiers table_rows =
     (case table_rows of
        [] \<Rightarrow> Inl IndexError
      | row0 # rest \<Rightarrow>
          (let first_row = AnnoTier row0;
               header = has_header first_row (numbers tiers);
               data_rows = (if header then rest else table_rows)
           in typed_table doc key_order tiers first_row header data_rows))"

section \<open>The incident synthesizer\<close>

text \<open>
  Modelled from the spec: the range of a \<^verbatim>\<open>SpanGroup\<close> is missing; the spec has a
  span group as "a span synthesized from a non-empty ordered collection of
  constituent spans (its range covers the union)".  Only values that pass
  \<^verbatim>\<open>if not value: continue\<close> are read; they are groups of at least one span.
\<close>

definition value_span :: "cell_value \<Rightarrow> span" where
  "value_span v =
     (case v of
        SpanGroup (s # ss) \<Rightarrow>
          \<lparr>span_start = foldl min (span_start s) (map span_start ss),
           span_end = foldl max (span_end s) (map span_end ss)\<rparr>
      | _ \<Rightarrow> \<lparr>span_start = 0, span_end = 0\<rparr>)"

definition value_text :: "string \<Rightarrow> cell_value \<Rightarrow> string" where
  "value_text doc v = span_text doc (value_span v)"

text \<open>The two base types and the two aggregations are string literals in the source.\<close>

datatype base_type = caseCount | deathCount

datatype aggregation = cumulative | incremental

definition base_type_name :: "base_type \<Rightarrow> string" where
  "base_type_name b = (case b of caseCount \<Rightarrow> ''caseCount'' | deathCount \<Rightarrow> ''deathCount'')"

text \<open>
  The row-level variables (lines 190 to 194).  \<^verbatim>\<open>row_incident_aggregation\<close> is set
  to \<^verbatim>\<open>None\<close> and never assigned again.
\<close>

record row_context =
  row_incident_date :: cell_value
  row_incident_location :: cell_value
  row_incident_base_type :: "base_type option"
  row_incident_status :: "string option"
  row_incident_aggregation :: "aggregation option"

definition initial_row_context :: row_context where
  "initial_row_context =
     \<lparr>row_incident_date = PyNone, row_incident_location = PyNone,
      row_incident_base_type = None, row_incident_status = None,
      row_incident_aggregation = None\<rparr>"

text \<open>
  The first loop over the cells of a row (lines 195 to 207):
  \<^verbatim>\<open>
  for column, value in zip(table.column_definitions, row):
      if not value: continue
      if column['type'] == 'date':
          row_incident_date = value
      elif column['type'] == 'geoname':
          row_incident_location = value
      elif column['type'] == 'incident_type':
          if "case" in value.text.lower():
              row_incident_base_type = "caseCount"
          elif "death" in value.text.lower():
              row_incident_base_type = "deathCount"
      elif column['type'] == 'incident_status':
          row_incident_status = value.text
  \<close>
\<close>

definition context_step :: "string \<Rightarrow> row_context \<Rightarrow> column_definition \<times> cell_value \<Rightarrow> row_context" where
  "context_step doc ctx cell =
     (let column = fst cell; v = snd cell in
      if \<not> value_truthy v then ctx
      else if col_type column = ''date'' then ctx\<lparr>row_incident_date := v\<rparr>
      else if col_type column = ''geoname'' then ctx\<lparr>row_incident_location := v\<rparr>
      else if col_type column = ''incident_type'' then
        (if py_contains ''case'' (py_lower (value_text doc v))
         then ctx\<lparr>row_incident_base_type := Some caseCount\<rparr>
         else if py_contains ''death'' (py_lower (value_text doc v))
         then ctx\<lparr>row_incident_base_type := Some deathCount\<rparr>
         else ctx)
      else if col_type column = ''incident_status''
      then ctx\<lparr>row_incident_status := Some (value_text doc v)\<rparr>
      else ctx)"

text \<open>
  A draft incident: the span of the numeric cell and the metadata dictionary built at
  lines 242 to 249.  \<open>inc_value\<close> is the entry \<^verbatim>\<open>value\<close>.
\<close>

record incident_draft =
  inc_span :: span
  base_type :: base_type
  aggregation :: "aggregation option"
  inc_value :: "int option"
  attributes :: "string list"
  location :: cell_value
  dateRange :: cell_value

text \<open>
  The second loop over the cells of a row (lines 210 to 249), for one cell.  A string
  is true when it is not empty; \<^verbatim>\<open>filter(lambda x:x, [count_status])\<close> keeps a
  status that is neither \<^verbatim>\<open>None\<close> nor empty.
\<close>

definition incident_of_cell :: "number_parser \<Rightarrow> string \<Rightarrow> row_context \<Rightarrow> column_definition \<times> cell_value \<Rightarrow> incident_draft list" where
  "incident_of_cell parse doc ctx cell =
     (let column = fst cell; v = snd cell in
      if \<not> value_truthy v then []
      else if col_type column = ''number'' then
        (let column_name = py_lower (case col_name column of None \<Rightarrow> [] | Some n \<Rightarrow> n);
             incident_base_type =
               (case row_incident_base_type ctx of
                  Some b \<Rightarrow> b
                | None \<Rightarrow>
                    if py_contains ''cases'' column_name then caseCount
                    else if py_contains ''deaths'' column_name then deathCount
                    else caseCount);
             count_status =
               (if row_incident_status ctx \<noteq> None \<and> row_incident_status ctx \<noteq> Some []
                then row_incident_status ctx
                else if py_contains ''suspect'' column_name then Some ''suspected''
                else if py_contains ''confirmed'' column_name then Some ''confirmed''
                else None);
             incident_aggregation =
               (if row_incident_aggregation ctx \<noteq> None then row_incident_aggregation ctx
                else if py_contains ''total'' column_name then Some cumulative
                else if py_contains ''new'' column_name then Some incremental
                else None);
             count = parse (value_text doc v)
         in [\<lparr>inc_span = value_span v,
              base_type = incident_base_type,
              aggregation = incident_aggregation,
              inc_value = count,
              attributes = (case count_status of
                              None \<Rightarrow> []
                            | Some status \<Rightarrow> if status = [] then [] else [status]),
              location = row_incident_location ctx,
              dateRange = row_incident_date ctx\<rparr>])
      else [])"

definition row_incidents :: "number_parser \<Rightarrow> string \<Rightarrow> column_definition list \<Rightarrow> cell_value list \<Rightarrow> incident_draft list" where
  "row_incidents parse doc columns row =
     (let ctx = foldl (context_step doc) initial_row_context (zip columns row)
      in concat (map (incident_of_cell parse doc ctx) (zip columns row)))"

text \<open>
  The running maxima of the incremental counts (lines 252 to 262).  A value is a
  number or \<^verbatim>\<open>None\<close>; Python 2 orders \<^verbatim>\<open>None\<close> below every number, so
  \<^verbatim>\<open>max_new_cases < None\<close> is false.
  \<^verbatim>\<open>
  max_new_cases = -1
  max_new_deaths = -1
  for incident_span in row_incidents:
      incident = incident_span.metadata
      if incident['aggregation'] == "incremental":
          if incident['base_type'] == 'caseCount':
              if max_new_cases < incident['value']:
                  max_new_cases = incident['value']
          else:
              if max_new_deaths < incident['value']:
                  max_new_deaths = incident['value']
  \<close>
\<close>

record new_maxima =
  max_new_cases :: int
  max_new_deaths :: int

definition initial_maxima :: new_maxima where
  "initial_maxima = \<lparr>max_new_cases = - 1, max_new_deaths = - 1\<rparr>"

definition maxima_step :: "new_maxima \<Rightarrow> incident_draft \<Rightarrow> new_maxima" where
  "maxima_step m incident =
     (if aggregation incident = Some incremental then
        (if base_type incident = caseCount then
           (case inc_value incident of
              None \<Rightarrow> m
            | Some v \<Rightarrow> if max_new_cases m < v then m\<lparr>max_new_cases := v\<rparr> else m)
         else
           (case inc_value incident of
              None \<Rightarrow> m
            | Some v \<Rightarrow> if max_new_deaths m < v then m\<lparr>max_new_deaths := v\<rparr> else m))
      else m)"

definition row_maxima :: "incident_draft list \<Rightarrow> new_maxima" where
  "row_maxima drafts = foldl maxima_step initial_maxima drafts"

text \<open>
  The marking of the undetermined drafts (lines 263 to 271); \<^verbatim>\<open>None > max_new_cases\<close>
  is false in Python 2.
  \<^verbatim>\<open>
  if incident['aggregation'] == None:
      if incident['base_type'] == 'caseCount':
          if max_new_cases >= 0 and incident['value'] > max_new_cases:
              incident['aggregation'] = 'cumulative'
      else:
          if max_new_deaths >= 0 and incident['value'] > max_new_deaths:
              incident['aggregation'] = 'cumulative'
  \<close>
\<close>

definition value_above :: "int option \<Rightarrow> int \<Rightarrow> bool" where
  "value_above v m = (case v of None \<Rightarrow> False | Some x \<Rightarrow> x > m)"

definition mark_cumulative :: "new_maxima \<Rightarrow> incident_draft \<Rightarrow> incident_draft" where
  "mark_cumulative m incident =
     (if aggregation incident = None then
        (if base_type incident = caseCount then
           (if max_new_cases m \<ge> 0 \<and> value_above (inc_value incident) (max_new_cases m)
            then incident\<lparr>aggregation := Some cumulative\<rparr> else incident)
         else
           (if max_new_deaths m \<ge> 0 \<and> value_above (inc_value incident) (max_new_deaths m)
            then incident\<lparr>aggregation := Some cumulative\<rparr> else incident))
      else incident)"

text \<open>
  A finished incident: the metadata after lines 272 to 279, with the entry \<^verbatim>\<open>type\<close>
  and without \<^verbatim>\<open>base_type\<close> and \<^verbatim>\<open>aggregation\<close>.
  \<^verbatim>\<open>
  if incident['aggregation'] == 'cumulative':
      incident['type'] = "cumulative" + incident['base_type'][0].upper() + incident['base_type'][1:]
  else:
      incident['type'] = incident['base_type']
  \<close>
\<close>

record incident =
  incident_span :: span
  incident_type :: string
  incident_value :: "int option"
  incident_attributes :: "string list"
  incident_location :: cell_value
  incident_dateRange :: cell_value

definition finalize :: "incident_draft \<Rightarrow> incident" where
  "finalize d =
     \<lparr>incident_span = inc_span d,
      incident_type =
        (if aggregation d = Some cumulative
         then ''cumulative'' @ py_upper (take 1 (base_type_name (base_type d))) @
              drop 1 (base_type_name (base_type d))
         else base_type_name (base_type d)),
      incident_value = inc_value d,
      incident_attributes = attributes d,
      incident_location = location d,
      incident_dateRange = dateRange d\<rparr>"

text \<open>The three loops of lines 252 to 279 over the drafts of one row.\<close>

definition resolve_row :: "incident_draft list \<Rightarrow> incident list" where
  "resolve_row drafts = map finalize (map (mark_cumulative (row_maxima drafts)) drafts)"

text \<open>The incidents of one table (lines 189 to 280), row after row.\<close>

definition table_incidents :: "number_parser \<Rightarrow> string \<Rightarrow> table \<Rightarrow> incident list" where
  "table_incidents parse doc t =
     concat (map (\<lambda>row. resolve_row (row_incidents parse doc (column_definitions t) row))
               (rows t))"

section \<open>The gazetteer importer\<close>

text \<open>
  A number read from the dataset is a Python \<^verbatim>\<open>int\<close> or a \<^verbatim>\<open>float\<close>; the type
  of floats is a parameter.  The built-in functions \<^verbatim>\<open>int\<close> and \<^verbatim>\<open>float\<close> are
  parameters too: applied to a string they return a number or raise.
  \<^verbatim>\<open>
  def parse_number(num, default):
      try:
          return int(num)
      except ValueError:
          try:
              return float(num)
          except ValueError:
              return default
  \<close>
  An \<^verbatim>\<open>except ValueError\<close> clause catches \<^verbatim>\<open>ValueError\<close> and its subclasses and
  lets every other exception through.
\<close>

datatype 'f py_number = PyInt int | PyFloat 'f

definition parse_number :: "(string \<Rightarrow> py_error + int) \<Rightarrow> (string \<Rightarrow> py_error + 'f) \<Rightarrow> string \<Rightarrow> 'f py_number \<Rightarrow> py_error + 'f py_number" where
  "parse_number py_int py_float num default_value =
     (case py_int num of
        Inr i \<Rightarrow> Inr (PyInt i)
      | Inl e \<Rightarrow>
          if e = ValueError then
            (case py_float num of
               Inr f \<Rightarrow> Inr (PyFloat f)
             | Inl e' \<Rightarrow> if e' = ValueError then Inr default_value else Inl e')
          else Inl e)"

text \<open>\<^verbatim>\<open>s.split(',')\<close>: the pieces between the commas; the empty string gives one empty piece.\<close>

fun py_split_comma :: "string \<Rightarrow> string list" where
  "py_split_comma [] = [[]]"
| "py_split_comma (c # cs) =
     (if c = CHR '','' then [] # py_split_comma cs
      else (case py_split_comma cs of
              [] \<Rightarrow> [[c]]
            | piece # pieces \<Rightarrow> (c # piece) # pieces))"

text \<open>
  A row of the dataset as the dictionary that \<^verbatim>\<open>DictReader\<close> yields for the 19 field
  names of \<^verbatim>\<open>geonames_field_mappings\<close>, every field a text.  \<^verbatim>\<open>read_geonames_csv\<close>
  replaces three fields by numbers and one by a list; the types of these four fields
  are parameters of the record.
\<close>

record ('n, 'a) geoname_dict =
  geonameid :: string
  name :: string
  asciiname :: string
  alternatenames :: "'a"
  latitude :: "'n"
  longitude :: "'n"
  feature_class :: string
  feature_code :: string
  country_code :: string
  cc2 :: string
  admin1_code :: string
  admin2_code :: string
  admin3_code :: string
  admin4_code :: string
  population :: "'n"
  elevation :: string
  dem :: string
  timezone :: string
  modification_date :: string

text \<open>
  The body of the loop of \<^verbatim>\<open>read_geonames_csv\<close> (lines 58 to 66):
  \<^verbatim>\<open>
  d['population'] = parse_number(d['population'], 0)
  d['latitude'] = parse_number(d['latitude'], 0)
  d['longitude'] = parse_number(d['longitude'], 0)
  if len(d['alternatenames']) > 0:
      d['alternatenames'] = d['alternatenames'].split(',')
  else:
      d['alternatenames'] = []
  yield d
  \<close>
\<close>

definition read_geoname :: "(string \<Rightarrow> py_error + int) \<Rightarrow> (string \<Rightarrow> py_error + 'f) \<Rightarrow> (string, string) geoname_dict \<Rightarrow> py_error + ('f py_number, string list) geoname_dict" where
  "read_geoname py_int py_float d =
     (case parse_number py_int py_float (population d) (PyInt 0) of
        Inl e \<Rightarrow> Inl e
      | Inr pop \<Rightarrow>
     (case parse_number py_int py_float (latitude d) (PyInt 0) of
        Inl e \<Rightarrow> Inl e
      | Inr lat \<Rightarrow>
     (case parse_number py_int py_float (longitude d) (PyInt 0) of
        Inl e \<Rightarrow> Inl e
      | Inr lon \<Rightarrow>
          Inr \<lparr>geonameid = geonameid d,
              name = name d,
              asciiname = asciiname d,
              alternatenames = (if length (alternatenames d) > 0
                           then py_split_comma (alternatenames d) else []),
              latitude = lat,
              longitude = lon,
              feature_class = feature_class d,
              feature_code = feature_code d,
              country_code = country_code d,
              cc2 = cc2 d,
              admin1_code = admin1_code d,
              admin2_code = admin2_code d,
              admin3_code = admin3_code d,
              admin4_code = admin4_code d,
              population = pop,
              elevation = elevation d,
              dem = dem d,
              timezone = timezone d,
              modification_date = modification_date d\<rparr>)))"

fun read_geonames :: "(string \<Rightarrow> py_error + int) \<Rightarrow> (string \<Rightarrow> py_error + 'f) \<Rightarrow> (string, string) geoname_dict list \<Rightarrow> py_error + ('f py_number, string list) geoname_dict list" where
  "read_geonames py_int py_float [] = Inr []"
| "read_geonames py_int py_float (d # ds) =
     (case read_geoname py_int py_float d of
        Inl e \<Rightarrow> Inl e
      | Inr g \<Rightarrow>
          (case read_geonames py_int py_float ds of
             Inl e \<Rightarrow> Inl e
           | Inr gs \<Rightarrow> Inr (g # gs)))"

text \<open>
  \<^verbatim>\<open>
  def batched(array):
      batch_size = 100
      batch = []
      for idx, item in enumerate(array):
          batch.append(item)
          batch_idx = idx % batch_size
          if batch_idx == batch_size - 1:
              yield batch
              batch = []
      yield batch
  \<close>
\<close>

fun batched_from :: "nat \<Rightarrow> 'a list \<Rightarrow> 'a list \<Rightarrow> 'a list list" where
  "batched_from idx batch [] = [batch]"
| "batched_from idx batch (item # array) =
     (if idx mod 100 = 100 - 1 then (batch @ [item]) # batched_from (Suc idx) [] array
      else batched_from (Suc idx) (batch @ [item]) array)"

definition batched :: "'a list \<Rightarrow> 'a list list" where
  "batched array = batched_from 0 [] array"

text \<open>
  The database: the table \<^verbatim>\<open>geonames\<close> holds the 14 fields of
  \<^verbatim>\<open>geonames_field_mappings\<close> that have an SQL type, with \<^verbatim>\<open>geonameid\<close> as primary
  key; \<^verbatim>\<open>alternatenames\<close> holds (geonameid, alternatename, alternatename_lemmatized);
  \<^verbatim>\<open>alternatename_counts\<close> holds (geonameid, count).
\<close>

type_synonym 'f geonames_tuple = "string \<times> string \<times> string \<times> 'f py_number \<times> 'f py_number \<times> string \<times> string \<times> string \<times> string \<times> string \<times> string \<times> string \<times> string \<times> 'f py_number"

record 'f database =
  geonames_table :: "'f geonames_tuple list"
  alternatenames_table :: "(string \<times> string \<times> string) list"
  alternatename_index :: bool
  alternatename_counts_table :: "(string \<times> nat) list"

definition empty_database :: "'f database" where
  "empty_database =
     \<lparr>geonames_table = [], alternatenames_table = [], alternatename_index = False,
      alternatename_counts_table = []\<rparr>"

definition geoname_tuple :: "('f py_number, string list) geoname_dict \<Rightarrow> 'f geonames_tuple" where
  "geoname_tuple g = (geonameid g, name g, asciiname g, latitude g, longitude g, feature_class g, feature_code g, country_code g, cc2 g, admin1_code g, admin2_code g, admin3_code g, admin4_code g, population g)"

text \<open>
  \<^verbatim>\<open>
  for alternatename in set(geoname['alternatenames'] + [geoname['name']]):
      alternatename_tuples.append((
          geoname['geonameid'], alternatename, alternatename.lower().strip()))
  \<close>
  A Python set is iterated in no fixed order; the order of \<open>remdups\<close> stands for it.
\<close>

definition alternatename_tuples :: "('n, string list) geoname_dict \<Rightarrow> (string \<times> string \<times> string) list" where
  "alternatename_tuples g =
     map (\<lambda>alternatename. (geonameid g, alternatename, py_strip (py_lower alternatename)))
       (remdups (alternatenames g @ [name g]))"

text \<open>
  \<^verbatim>\<open>cur.executemany(geonames_insert_command, geoname_tuples)\<close>: the rows are inserted
  one after the other; a row whose primary key is already in the table raises
  \<^verbatim>\<open>IntegrityError\<close>.
\<close>

fun insert_geonames :: "'f geonames_tuple list \<Rightarrow> 'f geonames_tuple list \<Rightarrow> py_error + 'f geonames_tuple list" where
  "insert_geonames tbl [] = Inr tbl"
| "insert_geonames tbl (t # ts) =
     (if fst t \<in> set (map fst tbl) then Inl IntegrityError
      else insert_geonames (tbl @ [t]) ts)"

text \<open>The body of the loop over the batches (lines 96 to 114), after the rows of the batch are read.\<close>

definition import_batch :: "'f database \<Rightarrow> ('f py_number, string list) geoname_dict list \<Rightarrow> py_error + 'f database" where
  "import_batch db batch =
     (case insert_geonames (geonames_table db) (map geoname_tuple batch) of
        Inl e \<Rightarrow> Inl e
      | Inr tbl \<Rightarrow>
          Inr (db\<lparr>geonames_table := tbl,
                  alternatenames_table :=
                    alternatenames_table db @ concat (map alternatename_tuples batch)\<rparr>))"

text \<open>
  The loop \<^verbatim>\<open>for batch in batched(read_geonames_csv())\<close>: the generator reads the rows
  of a batch, then the batch is inserted, then the next batch is read.
\<close>

fun import_batches :: "(string \<Rightarrow> py_error + int) \<Rightarrow> (string \<Rightarrow> py_error + 'f) \<Rightarrow> 'f database \<Rightarrow> (string, string) geoname_dict list list \<Rightarrow> py_error + 'f database" where
  "import_batches py_int py_float db [] = Inr db"
| "import_batches py_int py_float db (batch # batches) =
     (case read_geonames py_int py_float batch of
        Inl e \<Rightarrow> Inl e
      | Inr geonames_read \<Rightarrow>
          (case import_batch db geonames_read of
             Inl e \<Rightarrow> Inl e
           | Inr db' \<Rightarrow> import_batches py_int py_float db' batches))"

text \<open>
  \<^verbatim>\<open>
  INSERT INTO alternatename_counts
  SELECT geonameid, count(alternatename)
  FROM geonames INNER JOIN alternatenames USING ( geonameid )
  GROUP BY geonameid
  \<close>
  The join pairs every place with the alternate-name rows of the same
  \<^verbatim>\<open>geonameid\<close>; each group of the join gives one row with the number of its
  members (an alternate name is a string, never \<^verbatim>\<open>NULL\<close>).
\<close>

definition joined_rows :: "'f database \<Rightarrow> (string \<times> string) list" where
  "joined_rows db =
     concat (map (\<lambda>place.
                    map (\<lambda>entry. (fst place, fst (snd entry)))
                      (filter (\<lambda>entry. fst entry = fst place) (alternatenames_table db)))
               (geonames_table db))"

definition alternatename_counts :: "'f database \<Rightarrow> (string \<times> nat) list" where
  "alternatename_counts db =
     map (\<lambda>gid. (gid, length (filter (\<lambda>joined. fst joined = gid) (joined_rows db))))
       (remdups (map fst (joined_rows db)))"

text \<open>
  What the importer prints, and the state it works on: the database file at
  \<^verbatim>\<open>ANNIE_DB_PATH\<close>, if there is one, and the lines printed so far.  The path is
  imported from a module that is not among the sources; it is a parameter.
\<close>

datatype output_line =
  Already_exists string
| Downloading
| Download_done
| Progress nat

record 'f world =
  db_file :: "'f database option"
  printed :: "output_line list"

text \<open>
  \<^verbatim>\<open>create_sqlite_db\<close> (lines 79 to 129), given the rows of the downloaded dataset.
  A progress line is printed at every row whose number is a multiple of
  \<^verbatim>\<open>11000000 / 40\<close>.  When the import raises, the exception is the result and the
  partly written file is not described.
\<close>

definition create_sqlite_db :: "string \<Rightarrow> (string \<Rightarrow> py_error + int) \<Rightarrow> (string \<Rightarrow> py_error + 'f) \<Rightarrow> (string, string) geoname_dict list \<Rightarrow> 'f world \<Rightarrow> py_error + 'f world" where
  "create_sqlite_db ANNIE_DB_PATH py_int py_float csv_rows w =
     (case db_file w of
        Some existing \<Rightarrow> Inr (w\<lparr>printed := printed w @ [Already_exists ANNIE_DB_PATH]\<rparr>)
      | None \<Rightarrow>
          (case import_batches py_int py_float empty_database (batched csv_rows) of
             Inl e \<Rightarrow> Inl e
           | Inr db \<Rightarrow>
               Inr \<lparr>db_file =
                      Some (db\<lparr>alternatename_index := True,
                               alternatename_counts_table := alternatename_counts db\<rparr>),
                    printed =
                      printed w @ [Downloading, Download_done] @
                      map Progress
                        (filter (\<lambda>i. i mod (11000000 div 40) = 0)
                           [1..<Suc (length csv_rows)])\<rparr>))"

section \<open>Notions used to state the properties\<close>

text \<open>
  In the spec's words, "the maximum value among drafts already marked incremental",
  "separately for caseCount-family and deathCount-family drafts": the values of the
  drafts of a family that are marked incremental and carry a number.
\<close>

definition incremental_values :: "base_type \<Rightarrow> incident_draft list \<Rightarrow> int list" where
  "incremental_values b drafts =
     List.map_filter inc_value
       (filter (\<lambda>d. aggregation d = Some incremental \<and> base_type d = b) drafts)"

text \<open>The running maximum that the source keeps for the family of a base type.\<close>

definition family_maximum :: "new_maxima \<Rightarrow> base_type \<Rightarrow> int" where
  "family_maximum m b = (case b of caseCount \<Rightarrow> max_new_cases m | deathCount \<Rightarrow> max_new_deaths m)"

text \<open>A draft that carries a base type, an aggregation and a value, for the closed examples.\<close>

definition draft_of :: "base_type \<Rightarrow> aggregation option \<Rightarrow> int option \<Rightarrow> incident_draft" where
  "draft_of b a v =
     \<lparr>inc_span = \<lparr>span_start = 0, span_end = 0\<rparr>, base_type = b, aggregation = a,
      inc_value = v, attributes = [], location = PyNone, dateRange = PyNone\<rparr>"

text \<open>
  Instances of the parameters of the importer for the closed examples: an \<^verbatim>\<open>int\<close>
  that reads a string of decimal digits, a \<^verbatim>\<open>float\<close> that reads the text
  \<^verbatim>\<open>0.5\<close>, both raising \<^verbatim>\<open>ValueError\<close> on anything else; a row of the dataset with a
  given identifier, name and alternate-names field; and a state with no database file.
\<close>

definition example_int :: "string \<Rightarrow> py_error + int" where
  "example_int s = (case digits_only_parser s of None \<Rightarrow> Inl ValueError | Some n \<Rightarrow> Inr n)"

definition example_float :: "string \<Rightarrow> py_error + rat" where
  "example_float s = (if s = ''0.5'' then Inr (1 / 2) else Inl ValueError)"

definition example_row :: "string \<Rightarrow> string \<Rightarrow> string \<Rightarrow> (string, string) geoname_dict" where
  "example_row gid place_name alternates =
     \<lparr>geonameid = gid, name = place_name, asciiname = place_name,
      alternatenames = alternates, latitude = ''0.5'', longitude = ''12'',
      feature_class = ''P'', feature_code = ''PPL'', country_code = ''IT'', cc2 = [],
      admin1_code = [], admin2_code = [], admin3_code = [], admin4_code = [],
      population = ''unknown'', elevation = [], dem = [], timezone = ''Europe/Rome'',
      modification_date = ''2018-01-01''\<rparr>"

definition empty_world :: "rat world" where
  "empty_world = \<lparr>db_file = None, printed = []\<rparr>"

text \<open>
  A candidate type is eligible for a column when its matches clear the threshold of
  the source; \<open>example_tiers\<close> and \<open>example_key_order\<close> are a set of tiers with
  given geoname and number spans and an order of the six keys of
  \<^verbatim>\<open>entities_by_type\<close>, for the closed examples.
\<close>

definition eligible_type :: "string \<Rightarrow> span list \<Rightarrow> span list \<Rightarrow> string \<times> span list \<Rightarrow> bool" where
  "eligible_type doc column_values dates_tier item =
     clears_threshold (num_matches (AnnoTier column_values) dates_tier item)
       (num_non_null_rows doc column_values)"

definition example_tiers :: "span list \<Rightarrow> span list \<Rightarrow> entity_tiers" where
  "example_tiers geoname_spans number_spans =
     \<lparr>geonames = geoname_spans, dates = [], resolved_keywords = [], numbers = number_spans,
      incident_types = [], incident_statuses = []\<rparr>"

definition example_key_order :: "string list" where
  "example_key_order =
     [''geoname'', ''date'', ''resolved_keyword'', ''number'', ''incident_type'',
      ''incident_status'']"

section \<open>Properties of number validation\<close>

text \<open>
  C10: the number validator returns a boolean, without error, on every non-empty
  string, and on the empty string its read of the first character raises
  \<^verbatim>\<open>IndexError\<close> instead of returning \<^verbatim>\<open>False\<close>.
\<close>

theorem is_valid_number_total_only_on_nonempty:
  "is_valid_number parse [] = Inl IndexError \<and>
   (\<forall>s. s \<noteq> [] \<longrightarrow> (\<exists>b. is_valid_number parse s = Inr b))"
  by (auto simp: is_valid_number_def split: list.splits)

theorem is_valid_number_total_only_on_nonempty_witness:
  "is_valid_number digits_only_parser [] = Inl IndexError \<and>
   ''7'' \<noteq> [] \<and> is_valid_number digits_only_parser ''7'' = Inr True"
  using is_valid_number_total_only_on_nonempty [of digits_only_parser]
  by (simp add: is_valid_number_def digits_only_parser_def is_digit_def)

subsection \<open>The separator pattern and the range split\<close>

lemma joiner_at_shape:
  assumes "joiner_at s = Some n"
  shows "\<exists>ws w ws'. take n s = ws # w @ [ws'] \<and> py_isspace ws \<and> py_isspace ws' \<and>
           w \<in> {''to'', ''and'', ''or''} \<and> n = length w + 2 \<and> n \<le> length s"
proof (cases s)
  case Nil
  with assms show ?thesis by (simp add: joiner_at_def)
next
  case (Cons c rest)
  have tk: "\<And>k. k < length rest \<Longrightarrow> take (Suc k) rest = take k rest @ [rest ! k]"
    by (simp add: take_Suc_conv_app_nth)
  from assms Cons show ?thesis
    by (auto simp: joiner_at_def tk numeral_2_eq_2 numeral_3_eq_3 eval_nat_numeral split: if_splits)
qed

lemma finditer_scan_sound:
  "(x, y) \<in> set (finditer_scan pos skip s) \<Longrightarrow>
     pos \<le> x \<and> x \<le> y \<and> joiner_at (drop (x - pos) s) = Some (y - x)"
proof (induction s arbitrary: pos skip)
  case Nil
  then show ?case by simp
next
  case (Cons c cs)
  show ?case
  proof (cases "0 < skip")
    case True
    with Cons.prems have "(x, y) \<in> set (finditer_scan (Suc pos) (skip - 1) cs)" by simp
    from Cons.IH [OF this] have "Suc pos \<le> x" "x \<le> y"
      "joiner_at (drop (x - Suc pos) cs) = Some (y - x)" by simp_all
    moreover from this have "x - pos = Suc (x - Suc pos)" by arith
    ultimately show ?thesis by simp
  next
    case False
    show ?thesis
    proof (cases "joiner_at (c # cs)")
      case None
      with False Cons.prems have "(x, y) \<in> set (finditer_scan (Suc pos) 0 cs)" by simp
      from Cons.IH [OF this] have "Suc pos \<le> x" "x \<le> y"
        "joiner_at (drop (x - Suc pos) cs) = Some (y - x)" by simp_all
      moreover from this have "x - pos = Suc (x - Suc pos)" by arith
      ultimately show ?thesis by simp
    next
      case (Some n)
      with False Cons.prems have
        "(x, y) = (pos, pos + n) \<or> (x, y) \<in> set (finditer_scan (Suc pos) (n - 1) cs)" by simp
      then show ?thesis
      proof
        assume "(x, y) = (pos, pos + n)"
        with Some show ?thesis by simp
      next
        assume "(x, y) \<in> set (finditer_scan (Suc pos) (n - 1) cs)"
        from Cons.IH [OF this] have "Suc pos \<le> x" "x \<le> y"
          "joiner_at (drop (x - Suc pos) cs) = Some (y - x)" by simp_all
        moreover from this have "x - pos = Suc (x - Suc pos)" by arith
        ultimately show ?thesis by simp
      qed
    qed
  qed
qed

lemma finditer_joiner_sound:
  assumes "(a, b) \<in> set (finditer_joiner text)"
  shows "a < b \<and> b \<le> length text \<and>
         (\<exists>ws w ws'. take (b - a) (drop a text) = ws # w @ [ws'] \<and> py_isspace ws \<and>
            py_isspace ws' \<and> w \<in> {''to'', ''and'', ''or''})"
proof -
  from assms have j: "a \<le> b" "joiner_at (drop a text) = Some (b - a)"
    using finditer_scan_sound [of a b 0 0 "text"] by (simp_all add: finditer_joiner_def)
  from joiner_at_shape [OF j(2)] obtain ws w ws' where
    sh: "take (b - a) (drop a text) = ws # w @ [ws']" "py_isspace ws" "py_isspace ws'"
        "w \<in> {''to'', ''and'', ''or''}" "b - a = length w + 2" "b - a \<le> length (drop a text)"
    by blast
  from sh(5,6) j(1) have "a < b" "b \<le> length text" by auto
  with sh show ?thesis by blast
qed

lemma range_start_text:
  "a \<le> length (span_text doc ne) \<Longrightarrow>
   span_text doc \<lparr>span_start = span_start ne, span_end = span_start ne + a\<rparr> = take a (span_text doc ne)"
  by (auto simp: span_text_def min_def split: if_splits)

lemma range_end_text:
  "span_text doc \<lparr>span_start = span_start ne + b, span_end = span_end ne\<rparr> = drop b (span_text doc ne)"
  by (simp add: span_text_def drop_take add.commute)


lemma take_mid_drop:
  assumes "a \<le> b"
  shows "xs = take a xs @ take (b - a) (drop a xs) @ drop b xs"
proof -
  have "drop a xs = take (b - a) (drop a xs) @ drop (b - a) (drop a xs)"
    by (rule append_take_drop_id [symmetric])
  moreover from assms have "drop (b - a) (drop a xs) = drop b xs" by simp
  ultimately have "take a xs @ drop a xs = take a xs @ take (b - a) (drop a xs) @ drop b xs"
    by simp
  then show ?thesis by simp
qed

text \<open>
  Where both validations of the endpoints return: the validator accepts the string
  \<^verbatim>\<open>0\<close> (when the parser reads it), rejects every longer string that begins with
  \<^verbatim>\<open>0\<close>, and a quantity or cardinal mention that is not a valid number and has
  exactly one match of the separator pattern gives the text before the separator and
  the text after it as candidates, each one added exactly when it is a valid number
  by itself.
\<close>

lemma range_split_when_endpoints_validate:
  "(parse ''0'' \<noteq> None \<longrightarrow> is_valid_number parse ''0'' = Inr True) \<and>
   (cs \<noteq> [] \<longrightarrow> is_valid_number parse (CHR ''0'' # cs) = Inr False) \<and>
   ((ne_label = ''QUANTITY'' \<or> ne_label = ''CARDINAL'') \<and>
    is_valid_number parse (span_text doc ne_span) = Inr False \<and>
    finditer_joiner (span_text doc ne_span) = [(a, b)] \<and>
    is_valid_number parse (take a (span_text doc ne_span)) = Inr v1 \<and>
    is_valid_number parse (drop b (span_text doc ne_span)) = Inr v2
    \<longrightarrow>
      ne_span_numbers parse doc (ne_label, ne_span) =
        Inr ((if v1 then [\<lparr>span_start = span_start ne_span, span_end = span_start ne_span + a\<rparr>]
              else []) @
             (if v2 then [\<lparr>span_start = span_start ne_span + b, span_end = span_end ne_span\<rparr>]
              else [])) \<and>
      span_text doc \<lparr>span_start = span_start ne_span, span_end = span_start ne_span + a\<rparr> =
        take a (span_text doc ne_span) \<and>
      span_text doc \<lparr>span_start = span_start ne_span + b, span_end = span_end ne_span\<rparr> =
        drop b (span_text doc ne_span) \<and>
      (\<exists>ws w ws'. span_text doc ne_span =
           take a (span_text doc ne_span) @ ws # w @ [ws'] @ drop b (span_text doc ne_span) \<and>
           py_isspace ws \<and> py_isspace ws' \<and> w \<in> {''to'', ''and'', ''or''}))"
proof (intro conjI impI)
  show "is_valid_number parse ''0'' = Inr True" if "parse ''0'' \<noteq> None"
    using that by (simp add: is_valid_number_def)
  show "is_valid_number parse (CHR ''0'' # cs) = Inr False" if "cs \<noteq> []"
    using that by (simp add: is_valid_number_def)
next
  let ?t = "span_text doc ne_span"
  let ?rs = "\<lparr>span_start = span_start ne_span, span_end = span_start ne_span + a\<rparr>"
  let ?re = "\<lparr>span_start = span_start ne_span + b, span_end = span_end ne_span\<rparr>"
  assume h: "(ne_label = ''QUANTITY'' \<or> ne_label = ''CARDINAL'') \<and>
    is_valid_number parse ?t = Inr False \<and> finditer_joiner ?t = [(a, b)] \<and>
    is_valid_number parse (take a ?t) = Inr v1 \<and> is_valid_number parse (drop b ?t) = Inr v2"
  then have "(a, b) \<in> set (finditer_joiner ?t)" by simp
  from finditer_joiner_sound [OF this] obtain ws w ws' where
    ab: "a < b" "b \<le> length ?t" and
    sh: "take (b - a) (drop a ?t) = ws # w @ [ws']" "py_isspace ws" "py_isspace ws'"
        "w \<in> {''to'', ''and'', ''or''}"
    by blast
  from ab have rs: "span_text doc ?rs = take a ?t" by (simp add: range_start_text)
  have re: "span_text doc ?re = drop b ?t" by (rule range_end_text)
  show "span_text doc ?rs = take a ?t" by (rule rs)
  show "span_text doc ?re = drop b ?t" by (rule re)
  from h rs re show "ne_span_numbers parse doc (ne_label, ne_span) =
        Inr ((if v1 then [?rs] else []) @ (if v2 then [?re] else []))"
    by (auto simp: ne_span_numbers_def Let_def)
  from ab have "?t = take a ?t @ take (b - a) (drop a ?t) @ drop b ?t"
    by (intro take_mid_drop) simp
  with sh(1) have "?t = take a ?t @ ws # w @ [ws'] @ drop b ?t" by simp
  with sh show "\<exists>ws w ws'. ?t = take a ?t @ ws # w @ [ws'] @ drop b ?t \<and>
           py_isspace ws \<and> py_isspace ws' \<and> w \<in> {''to'', ''and'', ''or''}"
    by blast
qed

lemma five_to_ten_joiner: "finditer_joiner ''5 to 10'' = [(1, 5)]"
  by (simp add: finditer_joiner_def joiner_at_def py_isspace_def)

lemma range_split_five_to_ten:
  "digits_only_parser ''0'' \<noteq> None \<and> is_valid_number digits_only_parser ''0'' = Inr True \<and>
   ''23'' \<noteq> [] \<and> is_valid_number digits_only_parser ''023'' = Inr False \<and>
   is_valid_number digits_only_parser ''5 to 10'' = Inr False \<and>
   finditer_joiner ''5 to 10'' = [(1, 5)] \<and>
   is_valid_number digits_only_parser ''5'' = Inr True \<and>
   is_valid_number digits_only_parser ''10'' = Inr True \<and>
   ne_span_numbers digits_only_parser ''5 to 10'' (''CARDINAL'', \<lparr>span_start = 0, span_end = 7\<rparr>) =
     Inr [\<lparr>span_start = 0, span_end = 1\<rparr>, \<lparr>span_start = 5, span_end = 7\<rparr>]"
proof -
  let ?ne = "\<lparr>span_start = 0, span_end = 7\<rparr>"
  have t: "span_text ''5 to 10'' ?ne = ''5 to 10''" by (simp add: span_text_def)
  have p0: "digits_only_parser ''0'' \<noteq> None"
    by (simp add: digits_only_parser_def is_digit_def)
  have v: "is_valid_number digits_only_parser ''5 to 10'' = Inr False"
     "is_valid_number digits_only_parser ''5'' = Inr True"
     "is_valid_number digits_only_parser ''10'' = Inr True"
    by (simp_all add: is_valid_number_def digits_only_parser_def is_digit_def)
  from range_split_when_endpoints_validate
         [of digits_only_parser "''23''" "''CARDINAL''" "''5 to 10''" ?ne 1 5 True True]
       p0 v five_to_ten_joiner t
  show ?thesis by simp
qed

lemma is_valid_number_returns:
  "s \<noteq> [] \<Longrightarrow> \<exists>v. is_valid_number parse s = Inr v"
  by (cases s) (auto simp: is_valid_number_def)

text \<open>
  C5: the split of a mention at its one separator validates the text before the
  separator and the text after it; where the match of the separator pattern begins
  the mention or ends it, that text is empty, the validator reads its first
  character, and the loop raises \<^verbatim>\<open>IndexError\<close> instead of leaving the endpoint out
  and keeping the other one.
\<close>

theorem range_split_raises_on_empty_endpoint:
  "(ne_label = ''QUANTITY'' \<or> ne_label = ''CARDINAL'') \<and>
   is_valid_number parse (span_text doc ne_span) = Inr False \<and>
   finditer_joiner (span_text doc ne_span) = [(a, b)] \<and>
   (a = 0 \<or> b = length (span_text doc ne_span))
   \<longrightarrow> ne_span_numbers parse doc (ne_label, ne_span) = Inl IndexError"
proof
  let ?t = "span_text doc ne_span"
  let ?rs = "\<lparr>span_start = span_start ne_span, span_end = span_start ne_span + a\<rparr>"
  let ?re = "\<lparr>span_start = span_start ne_span + b, span_end = span_end ne_span\<rparr>"
  assume h: "(ne_label = ''QUANTITY'' \<or> ne_label = ''CARDINAL'') \<and>
    is_valid_number parse ?t = Inr False \<and> finditer_joiner ?t = [(a, b)] \<and>
    (a = 0 \<or> b = length ?t)"
  then have "(a, b) \<in> set (finditer_joiner ?t)" by simp
  from finditer_joiner_sound [OF this] have ab: "a < b" "b \<le> length ?t" by blast+
  from ab have rs: "span_text doc ?rs = take a ?t" by (simp add: range_start_text)
  have re: "span_text doc ?re = drop b ?t" by (rule range_end_text)
  show "ne_span_numbers parse doc (ne_label, ne_span) = Inl IndexError"
  proof (cases "a = 0")
    case True
    then have "is_valid_number parse (span_text doc ?rs) = Inl IndexError"
      unfolding rs by (simp add: is_valid_number_def)
    with h True show ?thesis by (auto simp: ne_span_numbers_def Let_def)
  next
    case False
    with h have b: "b = length ?t" by blast
    from False ab have "take a ?t \<noteq> []" by auto
    from is_valid_number_returns [OF this]
    obtain v1 where v1: "is_valid_number parse (span_text doc ?rs) = Inr v1"
      unfolding rs by blast
    from b have "is_valid_number parse (span_text doc ?re) = Inl IndexError"
      unfolding re by (simp add: is_valid_number_def)
    with h v1 show ?thesis by (auto simp: ne_span_numbers_def Let_def)
  qed
qed

theorem range_split_raises_on_empty_endpoint_witness:
  "is_valid_number digits_only_parser ''5 to '' = Inr False \<and>
   finditer_joiner ''5 to '' = [(1, 5)] \<and>
   is_valid_number digits_only_parser ''5'' = Inr True \<and>
   ne_span_numbers digits_only_parser ''5 to '' (''QUANTITY'', \<lparr>span_start = 0, span_end = 5\<rparr>) =
     Inl IndexError \<and>
   ne_span_numbers digits_only_parser '' to 5'' (''CARDINAL'', \<lparr>span_start = 0, span_end = 5\<rparr>) =
     Inl IndexError \<and>
   ne_numbers digits_only_parser ''7 and 5 to ''
     [(''CARDINAL'', \<lparr>span_start = 0, span_end = 1\<rparr>),
      (''QUANTITY'', \<lparr>span_start = 6, span_end = 11\<rparr>)] = Inl IndexError"
proof -
  let ?ne = "\<lparr>span_start = 0, span_end = 5\<rparr>"
  have t: "span_text ''5 to '' ?ne = ''5 to ''" by (simp add: span_text_def)
  have v: "is_valid_number digits_only_parser ''5 to '' = Inr False"
    "is_valid_number digits_only_parser ''5'' = Inr True"
    by (simp_all add: is_valid_number_def digits_only_parser_def is_digit_def)
  have j: "finditer_joiner ''5 to '' = [(1, 5)]"
    by (simp add: finditer_joiner_def joiner_at_def py_isspace_def)
  have h: "(''QUANTITY'' = ''QUANTITY'' \<or> ''QUANTITY'' = ''CARDINAL'') \<and>
     is_valid_number digits_only_parser (span_text ''5 to '' ?ne) = Inr False \<and>
     finditer_joiner (span_text ''5 to '' ?ne) = [(1, 5)] \<and>
     ((1::nat) = 0 \<or> (5::nat) = length (span_text ''5 to '' ?ne))"
    unfolding t using v(1) j by simp
  from range_split_raises_on_empty_endpoint
         [where ne_label = "''QUANTITY''" and parse = digits_only_parser and doc = "''5 to ''"
            and ne_span = ?ne and a = 1 and b = 5] h
  have r1: "ne_span_numbers digits_only_parser ''5 to '' (''QUANTITY'', ?ne) = Inl IndexError"
    by (rule mp)
  have r2: "ne_span_numbers digits_only_parser '' to 5'' (''CARDINAL'', ?ne) = Inl IndexError"
    by (simp add: ne_span_numbers_def span_text_def is_valid_number_def digits_only_parser_def
          is_digit_def finditer_joiner_def joiner_at_def py_isspace_def)
  have r3: "ne_numbers digits_only_parser ''7 and 5 to ''
     [(''CARDINAL'', \<lparr>span_start = 0, span_end = 1\<rparr>),
      (''QUANTITY'', \<lparr>span_start = 6, span_end = 11\<rparr>)] = Inl IndexError"
    by (simp add: ne_span_numbers_def span_text_def is_valid_number_def digits_only_parser_def
          is_digit_def finditer_joiner_def joiner_at_def py_isspace_def)
  from v(1) j v(2) r1 r2 r3 show ?thesis by (intro conjI)
qed

section \<open>Properties of the table interpreter\<close>

subsection \<open>Header detection\<close>

lemma set_AnnoTier [simp]: "set (AnnoTier spans) = set spans"
  by (simp add: AnnoTier_def)

lemma length_AnnoTier [simp]: "length (AnnoTier spans) = length spans"
  by (simp add: AnnoTier_def)

lemma has_header_iff:
  "has_header (AnnoTier row0) numbers_tier \<longleftrightarrow>
     (\<forall>cell\<in>set row0. \<forall>n\<in>set numbers_tier. \<not> span_contains cell n)"
  by (auto simp: has_header_def group_spans_by_containing_span_def list_all_iff
        filter_empty_conv)

lemma typed_table_no_rows:
  "typed_table doc key_order tiers first_row header [] =
     Inr \<lparr>column_definitions = [], rows = []\<rparr>"
  by (simp add: typed_table_def zip_star_def List.map_filter_simps)

lemma length_column_entities [simp]:
  "length (column_entities column_values dates_tier item) = length column_values"
  by (simp add: column_entities_def group_spans_by_containing_span_def)

lemma typing_step_length:
  assumes "\<forall>es. matching_column_entities st = Some es \<longrightarrow> length es = length cv"
  shows "\<forall>es. matching_column_entities (typing_step n cv dt st item) = Some es \<longrightarrow>
           length es = length cv"
  using assms by (auto simp: typing_step_def Let_def)

lemma foldl_typing_length:
  assumes "\<forall>es. matching_column_entities st = Some es \<longrightarrow> length es = length cv"
  shows "\<forall>es. matching_column_entities (foldl (typing_step n cv dt) st items) = Some es \<longrightarrow>
           length es = length cv"
  using assms
proof (induction items arbitrary: st)
  case Nil
  then show ?case by simp
next
  case (Cons item items)
  from typing_step_length [OF Cons.prems] have
    "\<forall>es. matching_column_entities (typing_step n cv dt st item) = Some es \<longrightarrow>
           length es = length cv" .
  from Cons.IH [OF this] show ?case by simp
qed

lemma determine_column_length:
  "matching_column_entities (determine_column doc items dates_tier column_values) = Some es \<Longrightarrow>
   length es = length column_values"
  using foldl_typing_length [of initial_typing_state "AnnoTier column_values"
          "num_non_null_rows doc column_values" dates_tier items]
  by (simp add: determine_column_def initial_typing_state_def)

lemma length_zip_star_le:
  assumes "\<forall>column\<in>set columns. length column = n"
  shows "length (zip_star columns) \<le> n"
proof (cases "columns = []")
  case True
  then show ?thesis by (simp add: zip_star_def)
next
  case False
  then obtain c where c: "c \<in> set columns" by (cases columns) auto
  with assms have "length c = n" by blast
  with c have "n \<in> set (map length columns)" by force
  then have "Min (set (map length columns)) \<le> n" by (intro Min_le) auto
  with False show ?thesis by (simp add: zip_star_def)
qed

lemma zip_star_columns:
  "\<forall>column\<in>set (zip_star data_rows). length column = length data_rows"
  by (auto simp: zip_star_def)

lemma typed_table_rows_le:
  assumes "typed_table doc key_order tiers first_row header data_rows = Inr t"
  shows "length (rows t) \<le> length data_rows"
proof -
  let ?items = "dict_items key_order (entities_by_type tiers)"
  let ?typed = "map (determine_column doc ?items (dates tiers)) (zip_star data_rows)"
  let ?parsed = "map matching_column_entities ?typed"
  from assms have r: "rows t = zip_star (List.map_filter (\<lambda>entities. entities) ?parsed)"
    by (auto simp: typed_table_def Let_def split: if_splits)
  have "\<forall>column\<in>set (List.map_filter (\<lambda>entities. entities) ?parsed).
          length column = length data_rows"
  proof
    fix es assume "es \<in> set (List.map_filter (\<lambda>entities. entities) ?parsed)"
    then obtain column where col: "column \<in> set (zip_star data_rows)" and
      es: "matching_column_entities (determine_column doc ?items (dates tiers) column) = Some es"
      by (auto simp: List.map_filter_def)
    from determine_column_length [OF es] zip_star_columns col
    show "length es = length data_rows" by auto
  qed
  from length_zip_star_le [OF this] r show ?thesis by simp
qed

text \<open>
  C4, amended: row 0 is treated as a header exactly when no cell of row 0 contains a
  span of the numbers tier (a number span that only overlaps a cell does not count);
  with a header the data rows are the rows after row 0, otherwise all rows, and the
  interpreted table has at most as many rows as there are data rows; the rule has no
  special case for a table of one row, so a single row that contains no number is a
  header and leaves a table with no column and no row.
\<close>

theorem header_iff_no_contained_number:
  "(has_header (AnnoTier row0) (numbers tiers) \<longleftrightarrow>
      (\<forall>cell\<in>set row0. \<forall>n\<in>set (numbers tiers). \<not> span_contains cell n)) \<and>
   interpret_table doc key_order tiers (row0 # rest) =
     typed_table doc key_order tiers (AnnoTier row0) (has_header (AnnoTier row0) (numbers tiers))
       (if has_header (AnnoTier row0) (numbers tiers) then rest else row0 # rest) \<and>
   (\<forall>t. interpret_table doc key_order tiers (row0 # rest) = Inr t \<longrightarrow>
      length (rows t) \<le>
        length (if has_header (AnnoTier row0) (numbers tiers) then rest else row0 # rest)) \<and>
   ((\<forall>cell\<in>set row0. \<forall>n\<in>set (numbers tiers). \<not> span_contains cell n) \<longrightarrow>
      interpret_table doc key_order tiers [row0] = Inr \<lparr>column_definitions = [], rows = []\<rparr>)"
proof (intro conjI allI impI)
  show "has_header (AnnoTier row0) (numbers tiers) \<longleftrightarrow>
      (\<forall>cell\<in>set row0. \<forall>n\<in>set (numbers tiers). \<not> span_contains cell n)"
    by (rule has_header_iff)
  show i: "interpret_table doc key_order tiers (row0 # rest) =
     typed_table doc key_order tiers (AnnoTier row0) (has_header (AnnoTier row0) (numbers tiers))
       (if has_header (AnnoTier row0) (numbers tiers) then rest else row0 # rest)"
    by (simp add: interpret_table_def Let_def)
  show "length (rows t) \<le>
        length (if has_header (AnnoTier row0) (numbers tiers) then rest else row0 # rest)"
    if "interpret_table doc key_order tiers (row0 # rest) = Inr t" for t
    using that typed_table_rows_le unfolding i by blast
  show "interpret_table doc key_order tiers [row0] = Inr \<lparr>column_definitions = [], rows = []\<rparr>"
    if "\<forall>cell\<in>set row0. \<forall>n\<in>set (numbers tiers). \<not> span_contains cell n"
    using that has_header_iff [of row0 "numbers tiers"]
    by (simp add: interpret_table_def Let_def typed_table_no_rows)
qed

text \<open>
  The claim C4 as it is written fails: in \<^verbatim>\<open>Area 10 000\<close> the cell \<^verbatim>\<open>Area 10\<close>
  overlaps the number span \<^verbatim>\<open>10 000\<close> without containing it, and the row is
  still taken as a header.
\<close>

theorem overlapping_number_keeps_header:
  "span_overlaps \<lparr>span_start = 0, span_end = 7\<rparr> \<lparr>span_start = 5, span_end = 11\<rparr> \<and>
   has_header (AnnoTier [\<lparr>span_start = 0, span_end = 7\<rparr>])
     (numbers (example_tiers [] [\<lparr>span_start = 5, span_end = 11\<rparr>])) \<and>
   interpret_table ''Area 10 000'' example_key_order
     (example_tiers [] [\<lparr>span_start = 5, span_end = 11\<rparr>]) [[\<lparr>span_start = 0, span_end = 7\<rparr>]] =
     Inr \<lparr>column_definitions = [], rows = []\<rparr>"
  by (simp add: span_overlaps_def has_header_def AnnoTier_def group_spans_by_containing_span_def
        span_contains_def example_tiers_def interpret_table_def typed_table_no_rows)

theorem header_iff_no_contained_number_witness:
  "has_header (AnnoTier [\<lparr>span_start = 0, span_end = 4\<rparr>, \<lparr>span_start = 7, span_end = 10\<rparr>])
     (numbers (example_tiers [] [\<lparr>span_start = 20, span_end = 21\<rparr>])) \<and>
   interpret_table ''Type / New'' example_key_order
     (example_tiers [] [\<lparr>span_start = 20, span_end = 21\<rparr>])
     [[\<lparr>span_start = 0, span_end = 4\<rparr>, \<lparr>span_start = 7, span_end = 10\<rparr>]] =
     Inr \<lparr>column_definitions = [], rows = []\<rparr>"
proof -
  let ?row = "[\<lparr>span_start = 0, span_end = 4\<rparr>, \<lparr>span_start = 7, span_end = 10\<rparr>]"
  let ?tiers = "example_tiers [] [\<lparr>span_start = 20, span_end = 21\<rparr>]"
  have h: "\<forall>cell\<in>set ?row. \<forall>n\<in>set (numbers ?tiers). \<not> span_contains cell n"
    by (simp add: example_tiers_def span_contains_def)
  note main = header_iff_no_contained_number [of ?row ?tiers "''Type / New''" example_key_order "[]"]
  from main h have a: "has_header (AnnoTier ?row) (numbers ?tiers)" by blast
  from main h have b: "interpret_table ''Type / New'' example_key_order ?tiers [?row] =
      Inr \<lparr>column_definitions = [], rows = []\<rparr>" by blast
  from a b show ?thesis by (rule conjI)
qed

subsection \<open>Column typing\<close>

lemma clears_threshold_pos: "clears_threshold m n \<Longrightarrow> 0 < m"
  by (cases "m = 0") (auto simp: clears_threshold_def)

lemma clears_threshold_iff: "clears_threshold m n \<longleftrightarrow> 0 < n \<and> 3 * n < 10 * m"
proof (cases "0 < n")
  case True
  then have "(3 / 10 < real m / real n) = (3 * real n < 10 * real m)"
    by (simp add: field_simps)
  also have "\<dots> = (real (3 * n) < real (10 * m))" by simp
  also have "\<dots> = (3 * n < 10 * m)" by (simp only: of_nat_less_iff)
  finally show ?thesis using True by (simp add: clears_threshold_def)
next
  case False
  then show ?thesis by (simp add: clears_threshold_def)
qed

lemma num_matches_count:
  "num_matches (AnnoTier column_values) dates_tier item =
     length (filter (\<lambda>cell. list_ex (span_contains cell) (filtered_value_spans dates_tier item))
               column_values)"
proof -
  let ?P = "\<lambda>cell. list_ex (span_contains cell) (filtered_value_spans dates_tier item)"
  have "num_matches (AnnoTier column_values) dates_tier item =
          length (filter ?P (AnnoTier column_values))"
    by (simp add: num_matches_def column_entities_def group_spans_by_containing_span_def
          filter_map comp_def list_ex_iff filter_empty_conv)
  also have "\<dots> = length (filter ?P column_values)"
    by (simp add: AnnoTier_def filter_sort)
  finally show ?thesis .
qed

lemma typing_loop:
  fixes n cv dt
  defines "M \<equiv> num_matches cv dt" and "E \<equiv> \<lambda>item. clears_threshold (num_matches cv dt item) n"
  defines "st \<equiv> \<lambda>items. foldl (typing_step n cv dt) initial_typing_state items"
  shows "(if \<exists>item\<in>set items. E item
          then \<exists>before winner after.
                 items = before @ winner # after \<and> E winner \<and>
                 (\<forall>item\<in>set before. E item \<longrightarrow> M item < M winner) \<and>
                 (\<forall>item\<in>set after. E item \<longrightarrow> M item \<le> M winner) \<and>
                 max_matches (st items) = M winner \<and>
                 column_type (st items) = fst winner \<and>
                 matching_column_entities (st items) = Some (column_entities cv dt winner)
          else max_matches (st items) = 0 \<and> column_type (st items) = ''text'' \<and>
               matching_column_entities (st items) =
                 (if items = [] then None else Some (map (\<lambda>x. EmptyList) cv)))"
proof (induction items rule: rev_induct)
  case Nil
  show ?case by (simp add: st_def initial_typing_state_def)
next
  case (snoc x xs)
  have step: "st (xs @ [x]) = typing_step n cv dt (st xs) x" by (simp add: st_def)
  show ?case
  proof (cases "\<exists>item\<in>set xs. E item")
    case False
    with snoc have old: "max_matches (st xs) = 0" "column_type (st xs) = ''text''"
      "matching_column_entities (st xs) =
         (if xs = [] then None else Some (map (\<lambda>x. EmptyList) cv))"
      by simp_all
    show ?thesis
    proof (cases "E x")
      case True
      then have "0 < M x" unfolding E_def M_def by (rule clears_threshold_pos)
      with True old have new: "max_matches (st (xs @ [x])) = M x"
        "column_type (st (xs @ [x])) = fst x"
        "matching_column_entities (st (xs @ [x])) = Some (column_entities cv dt x)"
        unfolding step by (simp_all add: typing_step_def Let_def E_def M_def)
      have "xs @ [x] = xs @ x # []" by simp
      moreover from False have "\<forall>item\<in>set xs. E item \<longrightarrow> M item < M x" by blast
      ultimately have "\<exists>before winner after.
                 xs @ [x] = before @ winner # after \<and> E winner \<and>
                 (\<forall>item\<in>set before. E item \<longrightarrow> M item < M winner) \<and>
                 (\<forall>item\<in>set after. E item \<longrightarrow> M item \<le> M winner) \<and>
                 max_matches (st (xs @ [x])) = M winner \<and>
                 column_type (st (xs @ [x])) = fst winner \<and>
                 matching_column_entities (st (xs @ [x])) = Some (column_entities cv dt winner)"
        using True new by (intro exI [of _ xs] exI [of _ x] exI [of _ "[]"]) simp
      with True show ?thesis by simp
    next
      case notE: False
      with old have "max_matches (st (xs @ [x])) = 0" "column_type (st (xs @ [x])) = ''text''"
        "matching_column_entities (st (xs @ [x])) = Some (map (\<lambda>x. EmptyList) cv)"
        unfolding step by (simp_all add: typing_step_def Let_def E_def M_def)
      with False notE show ?thesis by simp
    qed
  next
    case True
    with snoc obtain before winner after where
      w: "xs = before @ winner # after" "E winner"
         "\<forall>item\<in>set before. E item \<longrightarrow> M item < M winner"
         "\<forall>item\<in>set after. E item \<longrightarrow> M item \<le> M winner"
         "max_matches (st xs) = M winner" "column_type (st xs) = fst winner"
         "matching_column_entities (st xs) = Some (column_entities cv dt winner)"
      by auto
    from True have ex: "\<exists>item\<in>set (xs @ [x]). E item" by auto
    show ?thesis
    proof (cases "E x \<and> M winner < M x")
      case True
      with w have new: "max_matches (st (xs @ [x])) = M x"
        "column_type (st (xs @ [x])) = fst x"
        "matching_column_entities (st (xs @ [x])) = Some (column_entities cv dt x)"
        unfolding step by (simp_all add: typing_step_def Let_def E_def M_def)
      have "\<forall>item\<in>set xs. E item \<longrightarrow> M item < M x"
        using w(1,3,4) True by fastforce
      with True new have "\<exists>before winner after.
                 xs @ [x] = before @ winner # after \<and> E winner \<and>
                 (\<forall>item\<in>set before. E item \<longrightarrow> M item < M winner) \<and>
                 (\<forall>item\<in>set after. E item \<longrightarrow> M item \<le> M winner) \<and>
                 max_matches (st (xs @ [x])) = M winner \<and>
                 column_type (st (xs @ [x])) = fst winner \<and>
                 matching_column_entities (st (xs @ [x])) = Some (column_entities cv dt winner)"
        by (intro exI [of _ xs] exI [of _ x] exI [of _ "[]"]) simp
      with ex show ?thesis by simp
    next
      case False
      with w have same: "st (xs @ [x]) = st xs"
        unfolding step by (auto simp: typing_step_def Let_def E_def M_def)
      from False have "E x \<longrightarrow> M x \<le> M winner" by auto
      with w have "xs @ [x] = before @ winner # (after @ [x]) \<and> E winner \<and>
                 (\<forall>item\<in>set before. E item \<longrightarrow> M item < M winner) \<and>
                 (\<forall>item\<in>set (after @ [x]). E item \<longrightarrow> M item \<le> M winner) \<and>
                 max_matches (st (xs @ [x])) = M winner \<and>
                 column_type (st (xs @ [x])) = fst winner \<and>
                 matching_column_entities (st (xs @ [x])) = Some (column_entities cv dt winner)"
        unfolding same by auto
      then have "\<exists>before winner after.
                 xs @ [x] = before @ winner # after \<and> E winner \<and>
                 (\<forall>item\<in>set before. E item \<longrightarrow> M item < M winner) \<and>
                 (\<forall>item\<in>set after. E item \<longrightarrow> M item \<le> M winner) \<and>
                 max_matches (st (xs @ [x])) = M winner \<and>
                 column_type (st (xs @ [x])) = fst winner \<and>
                 matching_column_entities (st (xs @ [x])) = Some (column_entities cv dt winner)"
        by blast
      with ex show ?thesis by simp
    qed
  qed
qed

text \<open>
  C1, amended: the matches of a candidate type are the cells of the column that
  contain at least one span of the type (for \<^verbatim>\<open>number\<close>, of the number spans that
  overlap no date span), whether the text of the cell is null or not; a type is
  eligible when the column has a non-null cell and the matches divided by the number
  of non-null cells exceed 0.3.  The column gets the first type, in the iteration
  order of the candidates, whose matches are greatest among the eligible types:
  every eligible type before it has fewer matches, every eligible type after it has
  at most as many.  When no type is eligible, which includes a column with no
  non-null cell, the type is \<^verbatim>\<open>text\<close> and every cell resolves to the empty list
  \<^verbatim>\<open>[]\<close>.
\<close>

theorem column_type_first_greatest_eligible:
  assumes "items \<noteq> []"
  shows "(\<forall>item. num_matches (AnnoTier column_values) dates_tier item =
            length (filter (\<lambda>cell. list_ex (span_contains cell)
                              (if fst item = ''number''
                               then without_overlaps (snd item) dates_tier else snd item))
                      column_values)) \<and>
         (\<forall>item. eligible_type doc column_values dates_tier item \<longleftrightarrow>
            0 < num_non_null_rows doc column_values \<and>
            3 * num_non_null_rows doc column_values <
              10 * num_matches (AnnoTier column_values) dates_tier item) \<and>
         (if \<exists>item\<in>set items. eligible_type doc column_values dates_tier item
          then \<exists>before winner after.
                 items = before @ winner # after \<and>
                 eligible_type doc column_values dates_tier winner \<and>
                 (\<forall>item\<in>set before. eligible_type doc column_values dates_tier item \<longrightarrow>
                    num_matches (AnnoTier column_values) dates_tier item <
                    num_matches (AnnoTier column_values) dates_tier winner) \<and>
                 (\<forall>item\<in>set after. eligible_type doc column_values dates_tier item \<longrightarrow>
                    num_matches (AnnoTier column_values) dates_tier item \<le>
                    num_matches (AnnoTier column_values) dates_tier winner) \<and>
                 column_type (determine_column doc items dates_tier column_values) = fst winner \<and>
                 matching_column_entities (determine_column doc items dates_tier column_values) =
                   Some (column_entities (AnnoTier column_values) dates_tier winner)
          else column_type (determine_column doc items dates_tier column_values) = ''text'' \<and>
               matching_column_entities (determine_column doc items dates_tier column_values) =
                 Some (replicate (length column_values) EmptyList))"
proof (intro conjI allI)
  fix item :: "string \<times> span list"
  show "num_matches (AnnoTier column_values) dates_tier item =
            length (filter (\<lambda>cell. list_ex (span_contains cell)
                              (if fst item = ''number''
                               then without_overlaps (snd item) dates_tier else snd item))
                      column_values)"
    using num_matches_count [of column_values dates_tier item]
    by (simp add: filtered_value_spans_def)
  show "eligible_type doc column_values dates_tier item \<longleftrightarrow>
            0 < num_non_null_rows doc column_values \<and>
            3 * num_non_null_rows doc column_values <
              10 * num_matches (AnnoTier column_values) dates_tier item"
    by (simp add: eligible_type_def clears_threshold_iff)
next
  have r: "map (\<lambda>x. EmptyList) (AnnoTier column_values) =
             replicate (length column_values) EmptyList"
    by (simp add: map_replicate_const)
  from typing_loop [of items "AnnoTier column_values" dates_tier
         "num_non_null_rows doc column_values"] assms
  show "if \<exists>item\<in>set items. eligible_type doc column_values dates_tier item
          then \<exists>before winner after.
                 items = before @ winner # after \<and>
                 eligible_type doc column_values dates_tier winner \<and>
                 (\<forall>item\<in>set before. eligible_type doc column_values dates_tier item \<longrightarrow>
                    num_matches (AnnoTier column_values) dates_tier item <
                    num_matches (AnnoTier column_values) dates_tier winner) \<and>
                 (\<forall>item\<in>set after. eligible_type doc column_values dates_tier item \<longrightarrow>
                    num_matches (AnnoTier column_values) dates_tier item \<le>
                    num_matches (AnnoTier column_values) dates_tier winner) \<and>
                 column_type (determine_column doc items dates_tier column_values) = fst winner \<and>
                 matching_column_entities (determine_column doc items dates_tier column_values) =
                   Some (column_entities (AnnoTier column_values) dates_tier winner)
          else column_type (determine_column doc items dates_tier column_values) = ''text'' \<and>
               matching_column_entities (determine_column doc items dates_tier column_values) =
                 Some (replicate (length column_values) EmptyList)"
    unfolding eligible_type_def determine_column_def r [symmetric]
    by (simp split: if_splits) blast
qed

lemmas table_example_defs = eligible_type_def clears_threshold_def num_matches_def
  column_entities_def group_spans_by_containing_span_def AnnoTier_def filtered_value_spans_def
  without_overlaps_def span_overlaps_def num_non_null_rows_def is_null_def py_strip_def
  span_text_def py_isspace_def span_contains_def determine_column_def typing_step_def
  initial_typing_state_def dict_items_def entities_by_type_def example_tiers_def
  example_key_order_def List.map_filter_simps

lemma example_items:
  "dict_items example_key_order (entities_by_type (example_tiers gs ns)) =
     [(''geoname'', gs), (''date'', []), (''resolved_keyword'', []), (''number'', ns),
      (''incident_type'', []), (''incident_status'', [])]"
  by (simp add: dict_items_def entities_by_type_def example_tiers_def example_key_order_def
        List.map_filter_simps)

theorem column_type_first_greatest_eligible_witness:
  "dict_items example_key_order (entities_by_type (example_tiers [] [])) \<noteq> [] \<and>
   column_type (determine_column ''ab  cd''
      (dict_items example_key_order (entities_by_type (example_tiers [] []))) []
      [\<lparr>span_start = 0, span_end = 2\<rparr>, \<lparr>span_start = 4, span_end = 6\<rparr>]) = ''text'' \<and>
   matching_column_entities (determine_column ''ab  cd''
      (dict_items example_key_order (entities_by_type (example_tiers [] []))) []
      [\<lparr>span_start = 0, span_end = 2\<rparr>, \<lparr>span_start = 4, span_end = 6\<rparr>]) =
     Some [EmptyList, EmptyList] \<and>
   column_type (determine_column ''12 x 7''
      (dict_items example_key_order (entities_by_type
         (example_tiers [] [\<lparr>span_start = 0, span_end = 2\<rparr>, \<lparr>span_start = 5, span_end = 6\<rparr>]))) []
      [\<lparr>span_start = 0, span_end = 2\<rparr>, \<lparr>span_start = 5, span_end = 6\<rparr>]) = ''number''"
proof -
  let ?items = "dict_items example_key_order (entities_by_type (example_tiers [] []))"
  let ?cells = "[\<lparr>span_start = 0, span_end = 2\<rparr>, \<lparr>span_start = 4, span_end = 6\<rparr>]"
  have ne: "?items \<noteq> []" by (simp add: example_items)
  have none: "\<not> (\<exists>item\<in>set ?items. eligible_type ''ab  cd'' ?cells [] item)"
    by (simp add: example_items table_example_defs)
  note main = column_type_first_greatest_eligible [OF ne, of ?cells "[]" "''ab  cd''"]
  from main [THEN conjunct2, THEN conjunct2] none
  have t: "column_type (determine_column ''ab  cd'' ?items [] ?cells) = ''text'' \<and>
           matching_column_entities (determine_column ''ab  cd'' ?items [] ?cells) =
             Some (replicate (length ?cells) EmptyList)"
    by (simp only: if_False)
  have r: "replicate (length ?cells) EmptyList = [EmptyList, EmptyList]"
    by (simp add: numeral_2_eq_2)
  have n: "column_type (determine_column ''12 x 7''
      (dict_items example_key_order (entities_by_type
         (example_tiers [] [\<lparr>span_start = 0, span_end = 2\<rparr>, \<lparr>span_start = 5, span_end = 6\<rparr>]))) []
      [\<lparr>span_start = 0, span_end = 2\<rparr>, \<lparr>span_start = 5, span_end = 6\<rparr>]) = ''number''"
    by (simp add: example_items table_example_defs)
  from ne t n show ?thesis unfolding r by (intro conjI) simp_all
qed

text \<open>
  The claim C1 as it is written fails in two places: the cells of a \<^verbatim>\<open>text\<close> column
  hold \<^verbatim>\<open>[]\<close>, not \<^verbatim>\<open>None\<close>; and a null cell that contains a span is counted as
  a match, so that one match among four non-null cells (a quarter) together with a
  match in the null cell \<^verbatim>\<open>-\<close> makes the column a \<^verbatim>\<open>geoname\<close> column.
\<close>

theorem text_column_cells_are_empty_lists:
  "column_type (determine_column ''ab  cd''
      (dict_items example_key_order (entities_by_type (example_tiers [] []))) []
      [\<lparr>span_start = 0, span_end = 2\<rparr>, \<lparr>span_start = 4, span_end = 6\<rparr>]) = ''text'' \<and>
   matching_column_entities (determine_column ''ab  cd''
      (dict_items example_key_order (entities_by_type (example_tiers [] []))) []
      [\<lparr>span_start = 0, span_end = 2\<rparr>, \<lparr>span_start = 4, span_end = 6\<rparr>]) =
     Some [EmptyList, EmptyList] \<and>
   EmptyList \<noteq> PyNone \<and>
   column_type (determine_column ''- ab cd ef gh''
      (dict_items example_key_order (entities_by_type
         (example_tiers [\<lparr>span_start = 0, span_end = 1\<rparr>, \<lparr>span_start = 2, span_end = 4\<rparr>] []))) []
      [\<lparr>span_start = 0, span_end = 1\<rparr>, \<lparr>span_start = 2, span_end = 4\<rparr>,
       \<lparr>span_start = 5, span_end = 7\<rparr>, \<lparr>span_start = 8, span_end = 10\<rparr>,
       \<lparr>span_start = 11, span_end = 13\<rparr>]) = ''geoname'' \<and>
   num_non_null_rows ''- ab cd ef gh''
      [\<lparr>span_start = 0, span_end = 1\<rparr>, \<lparr>span_start = 2, span_end = 4\<rparr>,
       \<lparr>span_start = 5, span_end = 7\<rparr>, \<lparr>span_start = 8, span_end = 10\<rparr>,
       \<lparr>span_start = 11, span_end = 13\<rparr>] = 4 \<and>
   length (filter (\<lambda>cell. \<not> is_null (span_text ''- ab cd ef gh'' cell) \<and>
                     list_ex (span_contains cell)
                       [\<lparr>span_start = 0, span_end = 1\<rparr>, \<lparr>span_start = 2, span_end = 4\<rparr>])
      [\<lparr>span_start = 0, span_end = 1\<rparr>, \<lparr>span_start = 2, span_end = 4\<rparr>,
       \<lparr>span_start = 5, span_end = 7\<rparr>, \<lparr>span_start = 8, span_end = 10\<rparr>,
       \<lparr>span_start = 11, span_end = 13\<rparr>]) = 1 \<and>
   \<not> clears_threshold 1 4"
  by (simp add: example_items table_example_defs)

section \<open>Properties of the incident synthesizer\<close>

lemma incremental_values_Nil [simp]: "incremental_values b [] = []"
  by (simp add: incremental_values_def List.map_filter_simps)

lemma incremental_values_Cons:
  "incremental_values b (d # ds) =
     (if aggregation d = Some incremental \<and> base_type d = b
      then (case inc_value d of None \<Rightarrow> incremental_values b ds
                              | Some v \<Rightarrow> v # incremental_values b ds)
      else incremental_values b ds)"
  by (simp add: incremental_values_def List.map_filter_simps split: option.splits)

lemma maxima_step_cases:
  "max_new_cases (maxima_step m d) =
     (if aggregation d = Some incremental \<and> base_type d = caseCount
      then (case inc_value d of None \<Rightarrow> max_new_cases m | Some v \<Rightarrow> max v (max_new_cases m))
      else max_new_cases m)"
  by (auto simp: maxima_step_def max_def split: option.splits)

lemma maxima_step_deaths:
  "max_new_deaths (maxima_step m d) =
     (if aggregation d = Some incremental \<and> base_type d = deathCount
      then (case inc_value d of None \<Rightarrow> max_new_deaths m | Some v \<Rightarrow> max v (max_new_deaths m))
      else max_new_deaths m)"
  by (cases "base_type d") (auto simp: maxima_step_def max_def split: option.splits)

lemma foldl_maxima_cases:
  "max_new_cases (foldl maxima_step m ds) =
     fold max (incremental_values caseCount ds) (max_new_cases m)"
proof (induction ds arbitrary: m)
  case Nil
  show ?case by simp
next
  case (Cons d ds)
  have "max_new_cases (foldl maxima_step m (d # ds)) =
          fold max (incremental_values caseCount ds) (max_new_cases (maxima_step m d))"
    by (simp add: Cons.IH)
  also have "\<dots> = fold max (incremental_values caseCount (d # ds)) (max_new_cases m)"
    by (simp add: maxima_step_cases incremental_values_Cons split: option.splits)
  finally show ?case .
qed

lemma foldl_maxima_deaths:
  "max_new_deaths (foldl maxima_step m ds) =
     fold max (incremental_values deathCount ds) (max_new_deaths m)"
proof (induction ds arbitrary: m)
  case Nil
  show ?case by simp
next
  case (Cons d ds)
  have "max_new_deaths (foldl maxima_step m (d # ds)) =
          fold max (incremental_values deathCount ds) (max_new_deaths (maxima_step m d))"
    by (simp add: Cons.IH)
  also have "\<dots> = fold max (incremental_values deathCount (d # ds)) (max_new_deaths m)"
    by (simp add: maxima_step_deaths incremental_values_Cons split: option.splits)
  finally show ?case .
qed

lemma capitalized_names:
  "py_upper (take (Suc 0) (base_type_name caseCount)) @ drop (Suc 0) (base_type_name caseCount) =
     ''CaseCount''"
  "py_upper (take (Suc 0) (base_type_name deathCount)) @ drop (Suc 0) (base_type_name deathCount) =
     ''DeathCount''"
  by code_simp+

lemma row_maxima_Max:
  "max_new_cases (row_maxima ds) = Max (insert (- 1) (set (incremental_values caseCount ds)))"
  "max_new_deaths (row_maxima ds) = Max (insert (- 1) (set (incremental_values deathCount ds)))"
  by (simp_all add: row_maxima_def foldl_maxima_cases foldl_maxima_deaths initial_maxima_def
        Max.set_eq_fold [symmetric])

lemma family_maximum_Max:
  "family_maximum (row_maxima ds) b = Max (insert (- 1) (set (incremental_values b ds)))"
  by (cases b) (simp_all add: family_maximum_def row_maxima_Max)

lemma incremental_values_mem:
  "v \<in> set (incremental_values b ds) \<longleftrightarrow>
     (\<exists>d\<in>set ds. aggregation d = Some incremental \<and> base_type d = b \<and> inc_value d = Some v)"
  by (induction ds) (auto simp: incremental_values_Cons split: option.splits)

lemma finalize_type_undetermined:
  assumes "aggregation d = None"
  shows "incident_type (finalize (mark_cumulative m d)) =
           (if 0 \<le> family_maximum m (base_type d) \<and>
               (\<exists>v. inc_value d = Some v \<and> family_maximum m (base_type d) < v)
            then (case base_type d of caseCount \<Rightarrow> ''cumulativeCaseCount''
                                   | deathCount \<Rightarrow> ''cumulativeDeathCount'')
            else base_type_name (base_type d))"
  using assms
  by (cases "base_type d"; cases "inc_value d")
     (auto simp: finalize_def mark_cumulative_def family_maximum_def value_above_def
        capitalized_names)

lemma Max_of_nonneg:
  assumes "xs \<noteq> []" and "\<forall>v\<in>set xs. (0::int) \<le> v"
  shows "0 \<le> Max (set xs)"
proof -
  from assms(1) obtain v where v: "v \<in> set xs" by (cases xs) auto
  then have "v \<le> Max (set xs)" by simp
  moreover from assms(2) v have "0 \<le> v" by blast
  ultimately show ?thesis by simp
qed

text \<open>
  C2: for the drafts of a row, the synthesizer computes for each of the two families
  the maximum of the values of the drafts marked incremental (its variable stays at
  \<open>- 1\<close> when the family has none); a draft whose aggregation is undetermined is
  emitted as cumulative exactly when its family has an incremental draft and its
  value exceeds that maximum, and with its plain base type otherwise.  Counts are
  numbers that are not negative, which is what the start value \<open>- 1\<close> of the source
  relies on.
\<close>

theorem incremental_maximum_marks_cumulative:
  assumes nonneg: "\<forall>d\<in>set drafts. \<forall>v. inc_value d = Some v \<longrightarrow> 0 \<le> v"
  shows "max_new_cases (row_maxima drafts) =
           (if incremental_values caseCount drafts = [] then - 1
            else Max (set (incremental_values caseCount drafts))) \<and>
         max_new_deaths (row_maxima drafts) =
           (if incremental_values deathCount drafts = [] then - 1
            else Max (set (incremental_values deathCount drafts))) \<and>
         length (resolve_row drafts) = length drafts \<and>
         (\<forall>i<length drafts. aggregation (drafts ! i) = None \<longrightarrow>
            incident_type (resolve_row drafts ! i) =
              (if incremental_values (base_type (drafts ! i)) drafts \<noteq> [] \<and>
                  (\<exists>v. inc_value (drafts ! i) = Some v \<and>
                       Max (set (incremental_values (base_type (drafts ! i)) drafts)) < v)
               then (case base_type (drafts ! i) of
                       caseCount \<Rightarrow> ''cumulativeCaseCount''
                     | deathCount \<Rightarrow> ''cumulativeDeathCount'')
               else base_type_name (base_type (drafts ! i))))"
proof -
  have fam: "family_maximum (row_maxima drafts) b =
               (if incremental_values b drafts = [] then - 1
                else Max (set (incremental_values b drafts)))" for b
  proof (cases "incremental_values b drafts = []")
    case True
    then show ?thesis by (simp add: family_maximum_Max)
  next
    case False
    have "\<forall>v\<in>set (incremental_values b drafts). 0 \<le> v"
      using nonneg by (auto simp: incremental_values_mem)
    with False have "0 \<le> Max (set (incremental_values b drafts))"
      by (rule Max_of_nonneg)
    then have "- 1 \<le> Max (set (incremental_values b drafts))" by simp
    with False show ?thesis by (simp add: family_maximum_Max max_def)
  qed
  have pos: "0 \<le> family_maximum (row_maxima drafts) b \<longleftrightarrow> incremental_values b drafts \<noteq> []" for b
  proof (cases "incremental_values b drafts = []")
    case True
    then show ?thesis by (simp add: fam)
  next
    case False
    have "\<forall>v\<in>set (incremental_values b drafts). 0 \<le> v"
      using nonneg by (auto simp: incremental_values_mem)
    with False have "0 \<le> Max (set (incremental_values b drafts))"
      by (rule Max_of_nonneg)
    with False show ?thesis by (simp add: fam)
  qed
  have c: "max_new_cases (row_maxima drafts) =
           (if incremental_values caseCount drafts = [] then - 1
            else Max (set (incremental_values caseCount drafts)))"
    using fam [of caseCount] by (simp add: family_maximum_def)
  have d: "max_new_deaths (row_maxima drafts) =
           (if incremental_values deathCount drafts = [] then - 1
            else Max (set (incremental_values deathCount drafts)))"
    using fam [of deathCount] by (simp add: family_maximum_def)
  have l: "length (resolve_row drafts) = length drafts" by (simp add: resolve_row_def)
  have t: "incident_type (resolve_row drafts ! i) =
              (if incremental_values (base_type (drafts ! i)) drafts \<noteq> [] \<and>
                  (\<exists>v. inc_value (drafts ! i) = Some v \<and>
                       Max (set (incremental_values (base_type (drafts ! i)) drafts)) < v)
               then (case base_type (drafts ! i) of
                       caseCount \<Rightarrow> ''cumulativeCaseCount''
                     | deathCount \<Rightarrow> ''cumulativeDeathCount'')
               else base_type_name (base_type (drafts ! i)))"
    if "i < length drafts" "aggregation (drafts ! i) = None" for i
  proof -
    from that(1) have "resolve_row drafts ! i =
        finalize (mark_cumulative (row_maxima drafts) (drafts ! i))"
      by (simp add: resolve_row_def)
    then show ?thesis
      using finalize_type_undetermined [OF that(2), of "row_maxima drafts"]
            pos [of "base_type (drafts ! i)"] fam [of "base_type (drafts ! i)"]
      by auto
  qed
  from c d l t show ?thesis by blast
qed

theorem incremental_maximum_marks_cumulative_witness:
  "map inc_value [draft_of caseCount (Some incremental) (Some 3), draft_of caseCount None (Some 293),
                  draft_of caseCount None (Some 2), draft_of deathCount None (Some 7)] =
     [Some 3, Some 293, Some 2, Some 7] \<and>
   max_new_cases (row_maxima
     [draft_of caseCount (Some incremental) (Some 3), draft_of caseCount None (Some 293),
      draft_of caseCount None (Some 2), draft_of deathCount None (Some 7)]) = 3 \<and>
   max_new_deaths (row_maxima
     [draft_of caseCount (Some incremental) (Some 3), draft_of caseCount None (Some 293),
      draft_of caseCount None (Some 2), draft_of deathCount None (Some 7)]) = - 1 \<and>
   incident_type (resolve_row
     [draft_of caseCount (Some incremental) (Some 3), draft_of caseCount None (Some 293),
      draft_of caseCount None (Some 2), draft_of deathCount None (Some 7)] ! 1) =
     ''cumulativeCaseCount'' \<and>
   incident_type (resolve_row
     [draft_of caseCount (Some incremental) (Some 3), draft_of caseCount None (Some 293),
      draft_of caseCount None (Some 2), draft_of deathCount None (Some 7)] ! 2) =
     ''caseCount'' \<and>
   incident_type (resolve_row
     [draft_of caseCount (Some incremental) (Some 3), draft_of caseCount None (Some 293),
      draft_of caseCount None (Some 2), draft_of deathCount None (Some 7)] ! 3) =
     ''deathCount''"
proof -
  let ?ds = "[draft_of caseCount (Some incremental) (Some 3), draft_of caseCount None (Some 293),
              draft_of caseCount None (Some 2), draft_of deathCount None (Some 7)]"
  have nonneg: "\<forall>d\<in>set ?ds. \<forall>v. inc_value d = Some v \<longrightarrow> 0 \<le> v"
    by (simp add: draft_of_def)
  have iv: "incremental_values caseCount ?ds = [3]" "incremental_values deathCount ?ds = []"
    by (simp_all add: incremental_values_Cons draft_of_def)
  have sel: "\<And>b a v. base_type (draft_of b a v) = b"
    "\<And>b a v. aggregation (draft_of b a v) = a" "\<And>b a v. inc_value (draft_of b a v) = v"
    by (simp_all add: draft_of_def)
  have und: "aggregation (?ds ! 1) = None" "aggregation (?ds ! 2) = None"
    "aggregation (?ds ! 3) = None"
    by (simp_all add: sel)
  have len: "1 < length ?ds" "2 < length ?ds" "3 < length ?ds" by simp_all
  note main = incremental_maximum_marks_cumulative [OF nonneg]
  note types = main [THEN conjunct2, THEN conjunct2, THEN conjunct2, rule_format]
  have m1: "max_new_cases (row_maxima ?ds) = 3"
    using main [THEN conjunct1] by (simp add: iv)
  have m2: "max_new_deaths (row_maxima ?ds) = - 1"
    using main [THEN conjunct2, THEN conjunct1] by (simp add: iv)
  have t1: "incident_type (resolve_row ?ds ! 1) = ''cumulativeCaseCount''"
    using types [OF len(1) und(1)] by (simp add: sel iv)
  have t2: "incident_type (resolve_row ?ds ! 2) = ''caseCount''"
    using types [OF len(2) und(2)] by (simp add: sel iv base_type_name_def)
  have t3: "incident_type (resolve_row ?ds ! 3) = ''deathCount''"
    using types [OF len(3) und(3)] by (simp add: sel iv base_type_name_def)
  have vals: "map inc_value ?ds = [Some 3, Some 293, Some 2, Some 7]" by (simp add: sel)
  from vals m1 m2 t1 t2 t3 show ?thesis by (intro conjI)
qed

lemma max_rule_exceeds_incremental:
  assumes i: "i < length drafts" and undetermined: "aggregation (drafts ! i) = None"
    and marked: "incident_type (resolve_row drafts ! i) \<in>
                   {''cumulativeCaseCount'', ''cumulativeDeathCount''}"
    and j: "j < length drafts" and inc: "aggregation (drafts ! j) = Some incremental"
    and same: "base_type (drafts ! j) = base_type (drafts ! i)"
  shows "\<exists>v. incident_value (resolve_row drafts ! i) = Some v \<and>
             (\<forall>w. inc_value (drafts ! j) = Some w \<longrightarrow> w < v)"
proof -
  let ?b = "base_type (drafts ! i)"
  let ?m = "family_maximum (row_maxima drafts) ?b"
  from i have r: "resolve_row drafts ! i = finalize (mark_cumulative (row_maxima drafts) (drafts ! i))"
    by (simp add: resolve_row_def)
  have names: "base_type_name ?b \<notin> {''cumulativeCaseCount'', ''cumulativeDeathCount''}"
    by (cases ?b) (simp_all add: base_type_name_def)
  from marked r names finalize_type_undetermined [OF undetermined, of "row_maxima drafts"]
  obtain v where v: "inc_value (drafts ! i) = Some v" "?m < v"
    by (auto split: if_splits)
  have val: "incident_value (resolve_row drafts ! i) = Some v"
    using r v(1) undetermined by (simp add: finalize_def mark_cumulative_def)
  have "w < v" if w: "inc_value (drafts ! j) = Some w" for w
  proof -
    from j inc same w have "w \<in> set (incremental_values ?b drafts)"
      by (auto simp: incremental_values_mem intro!: bexI [of _ "drafts ! j"])
    then have "w \<le> ?m" by (simp add: family_maximum_Max)
    with v(2) show ?thesis by simp
  qed
  with val show ?thesis by blast
qed

lemma context_keeps_aggregation:
  "row_incident_aggregation (foldl (context_step doc) ctx cells) = row_incident_aggregation ctx"
  by (induction cells arbitrary: ctx) (simp_all add: context_step_def Let_def)

lemma row_context_aggregation:
  "row_incident_aggregation (foldl (context_step doc) initial_row_context cells) = None"
  by (simp add: context_keeps_aggregation initial_row_context_def)

lemma incident_of_number_cell:
  assumes "value_truthy (snd cell)" and "col_type (fst cell) = ''number''"
    and "row_incident_aggregation ctx = None"
  shows "\<exists>d. incident_of_cell parse doc ctx cell = [d] \<and>
             inc_span d = value_span (snd cell) \<and>
             inc_value d = parse (value_text doc (snd cell)) \<and>
             aggregation d =
               (if py_contains ''total''
                     (py_lower (case col_name (fst cell) of None \<Rightarrow> [] | Some n \<Rightarrow> n))
                then Some cumulative
                else if py_contains ''new''
                          (py_lower (case col_name (fst cell) of None \<Rightarrow> [] | Some n \<Rightarrow> n))
                then Some incremental else None)"
  using assms by (simp add: incident_of_cell_def Let_def)

lemma row_incidents_of_cell:
  assumes "cell \<in> set (zip columns row)"
  shows "set (incident_of_cell parse doc
                (foldl (context_step doc) initial_row_context (zip columns row)) cell)
           \<subseteq> set (row_incidents parse doc columns row)"
  using assms by (auto simp: row_incidents_def Let_def)

lemma resolve_cumulative_draft:
  assumes "d \<in> set drafts" and "aggregation d = Some cumulative"
  shows "\<exists>inc\<in>set (resolve_row drafts).
           incident_span inc = inc_span d \<and> incident_value inc = inc_value d \<and>
           incident_type inc \<in> {''cumulativeCaseCount'', ''cumulativeDeathCount''}"
proof -
  let ?inc = "finalize (mark_cumulative (row_maxima drafts) d)"
  from assms(2) have m: "mark_cumulative (row_maxima drafts) d = d"
    by (simp add: mark_cumulative_def)
  from assms(1) have "?inc \<in> set (resolve_row drafts)" by (simp add: resolve_row_def)
  moreover have "incident_span ?inc = inc_span d" "incident_value ?inc = inc_value d"
    unfolding m by (simp_all add: finalize_def)
  moreover have "incident_type ?inc \<in> {''cumulativeCaseCount'', ''cumulativeDeathCount''}"
    unfolding m using assms(2) by (cases "base_type d") (simp_all add: finalize_def capitalized_names)
  ultimately show ?thesis by blast
qed

lemma total_header_cumulative:
  assumes cell: "cell \<in> set (zip columns row)" and v: "value_truthy (snd cell)"
    and num: "col_type (fst cell) = ''number''"
    and nm: "col_name (fst cell) = Some header_name"
    and tot: "py_contains ''total'' (py_lower header_name)"
  shows "\<exists>inc\<in>set (resolve_row (row_incidents parse doc columns row)).
           incident_span inc = value_span (snd cell) \<and>
           incident_value inc = parse (value_text doc (snd cell)) \<and>
           incident_type inc \<in> {''cumulativeCaseCount'', ''cumulativeDeathCount''}"
proof -
  let ?ctx = "foldl (context_step doc) initial_row_context (zip columns row)"
  from incident_of_number_cell [where parse = parse and doc = doc, OF v num
         row_context_aggregation [of doc "zip columns row"]]
  obtain d where d: "incident_of_cell parse doc ?ctx cell = [d]"
    "inc_span d = value_span (snd cell)" "inc_value d = parse (value_text doc (snd cell))"
    "aggregation d = Some cumulative"
    using nm tot by auto
  from row_incidents_of_cell [OF cell, where parse = parse and doc = doc] d(1)
  have "d \<in> set (row_incidents parse doc columns row)" by simp
  from resolve_cumulative_draft [OF this d(4)] d(2,3) show ?thesis by simp
qed

lemma header_decides_draft_aggregation:
  assumes cell: "cell \<in> set (zip columns row)" and v: "value_truthy (snd cell)"
    and num: "col_type (fst cell) = ''number''"
  shows "\<exists>d\<in>set (row_incidents parse doc columns row).
           inc_span d = value_span (snd cell) \<and>
           aggregation d =
             (if py_contains ''total''
                   (py_lower (case col_name (fst cell) of None \<Rightarrow> [] | Some n \<Rightarrow> n))
              then Some cumulative
              else if py_contains ''new''
                        (py_lower (case col_name (fst cell) of None \<Rightarrow> [] | Some n \<Rightarrow> n))
              then Some incremental else None)"
proof -
  let ?ctx = "foldl (context_step doc) initial_row_context (zip columns row)"
  from incident_of_number_cell [where parse = parse and doc = doc, OF v num
         row_context_aggregation [of doc "zip columns row"]]
  obtain d where d: "incident_of_cell parse doc ?ctx cell = [d]"
    "inc_span d = value_span (snd cell)"
    "aggregation d =
       (if py_contains ''total''
             (py_lower (case col_name (fst cell) of None \<Rightarrow> [] | Some n \<Rightarrow> n))
        then Some cumulative
        else if py_contains ''new''
                  (py_lower (case col_name (fst cell) of None \<Rightarrow> [] | Some n \<Rightarrow> n))
        then Some incremental else None)"
    by blast
  from row_incidents_of_cell [OF cell, where parse = parse and doc = doc] d(1)
  have "d \<in> set (row_incidents parse doc columns row)" by simp
  with d(2,3) show ?thesis by blast
qed

text \<open>
  C3, amended: an incident that the maximum rule marks cumulative (its draft had no
  aggregation from its header) has a value strictly above the value of every draft
  of the same base type in the row that is marked incremental.  The header decides
  the aggregation of a draft: cumulative when the lower-cased header contains
  \<^verbatim>\<open>total\<close>, else incremental when it contains \<^verbatim>\<open>new\<close>, else undetermined.  Every
  non-empty cell of a number column whose header contains \<^verbatim>\<open>total\<close> gives an
  incident that is emitted as cumulative whatever its value is.
\<close>

theorem cumulative_by_maximum_or_total_header:
  "(i < length drafts \<and> aggregation (drafts ! i) = None \<and>
    incident_type (resolve_row drafts ! i) \<in> {''cumulativeCaseCount'', ''cumulativeDeathCount''} \<and>
    j < length drafts \<and> aggregation (drafts ! j) = Some incremental \<and>
    base_type (drafts ! j) = base_type (drafts ! i)
    \<longrightarrow> (\<exists>v. incident_value (resolve_row drafts ! i) = Some v \<and>
             (\<forall>w. inc_value (drafts ! j) = Some w \<longrightarrow> w < v))) \<and>
   (cell \<in> set (zip columns row) \<and> value_truthy (snd cell) \<and>
    col_type (fst cell) = ''number''
    \<longrightarrow> (\<exists>d\<in>set (row_incidents parse doc columns row).
           inc_span d = value_span (snd cell) \<and>
           aggregation d =
             (if py_contains ''total''
                   (py_lower (case col_name (fst cell) of None \<Rightarrow> [] | Some n \<Rightarrow> n))
              then Some cumulative
              else if py_contains ''new''
                        (py_lower (case col_name (fst cell) of None \<Rightarrow> [] | Some n \<Rightarrow> n))
              then Some incremental else None))) \<and>
   (cell \<in> set (zip columns row) \<and> value_truthy (snd cell) \<and>
    col_type (fst cell) = ''number'' \<and> col_name (fst cell) = Some header_name \<and>
    py_contains ''total'' (py_lower header_name)
    \<longrightarrow> (\<exists>inc\<in>set (resolve_row (row_incidents parse doc columns row)).
           incident_span inc = value_span (snd cell) \<and>
           incident_value inc = parse (value_text doc (snd cell)) \<and>
           incident_type inc \<in> {''cumulativeCaseCount'', ''cumulativeDeathCount''}))"
proof (intro conjI impI)
  assume "i < length drafts \<and> aggregation (drafts ! i) = None \<and>
    incident_type (resolve_row drafts ! i) \<in> {''cumulativeCaseCount'', ''cumulativeDeathCount''} \<and>
    j < length drafts \<and> aggregation (drafts ! j) = Some incremental \<and>
    base_type (drafts ! j) = base_type (drafts ! i)"
  then show "\<exists>v. incident_value (resolve_row drafts ! i) = Some v \<and>
             (\<forall>w. inc_value (drafts ! j) = Some w \<longrightarrow> w < v)"
    by (intro max_rule_exceeds_incremental) simp_all
next
  assume "cell \<in> set (zip columns row) \<and> value_truthy (snd cell) \<and>
    col_type (fst cell) = ''number''"
  then show "\<exists>d\<in>set (row_incidents parse doc columns row).
           inc_span d = value_span (snd cell) \<and>
           aggregation d =
             (if py_contains ''total''
                   (py_lower (case col_name (fst cell) of None \<Rightarrow> [] | Some n \<Rightarrow> n))
              then Some cumulative
              else if py_contains ''new''
                        (py_lower (case col_name (fst cell) of None \<Rightarrow> [] | Some n \<Rightarrow> n))
              then Some incremental else None)"
    by (intro header_decides_draft_aggregation) simp_all
next
  assume "cell \<in> set (zip columns row) \<and> value_truthy (snd cell) \<and>
    col_type (fst cell) = ''number'' \<and> col_name (fst cell) = Some header_name \<and>
    py_contains ''total'' (py_lower header_name)"
  then show "\<exists>inc\<in>set (resolve_row (row_incidents parse doc columns row)).
           incident_span inc = value_span (snd cell) \<and>
           incident_value inc = parse (value_text doc (snd cell)) \<and>
           incident_type inc \<in> {''cumulativeCaseCount'', ''cumulativeDeathCount''}"
    by (intro total_header_cumulative [where header_name = header_name]) simp_all
qed

theorem cumulative_by_maximum_or_total_header_witness:
  "(1::nat) < length [draft_of caseCount (Some incremental) (Some 3),
                      draft_of caseCount None (Some 293)] \<and>
   aggregation ([draft_of caseCount (Some incremental) (Some 3),
                 draft_of caseCount None (Some 293)] ! 1) = None \<and>
   incident_type (resolve_row [draft_of caseCount (Some incremental) (Some 3),
                               draft_of caseCount None (Some 293)] ! 1) = ''cumulativeCaseCount'' \<and>
   aggregation ([draft_of caseCount (Some incremental) (Some 3),
                 draft_of caseCount None (Some 293)] ! 0) = Some incremental \<and>
   (\<exists>v. incident_value (resolve_row [draft_of caseCount (Some incremental) (Some 3),
                                     draft_of caseCount None (Some 293)] ! 1) = Some v \<and>
        (\<forall>w. inc_value ([draft_of caseCount (Some incremental) (Some 3),
                          draft_of caseCount None (Some 293)] ! 0) = Some w \<longrightarrow> w < v)) \<and>
   py_contains ''total'' (py_lower ''Total'') \<and>
   (\<exists>inc\<in>set (resolve_row (row_incidents digits_only_parser ''5 / 2''
        [\<lparr>col_name = Some ''New'', col_type = ''number''\<rparr>,
         \<lparr>col_name = Some ''Total'', col_type = ''number''\<rparr>]
        [SpanGroup [\<lparr>span_start = 0, span_end = 1\<rparr>], SpanGroup [\<lparr>span_start = 4, span_end = 5\<rparr>]])).
      incident_span inc = \<lparr>span_start = 4, span_end = 5\<rparr> \<and>
      incident_value inc = Some 2 \<and>
      incident_type inc \<in> {''cumulativeCaseCount'', ''cumulativeDeathCount''})"
proof -
  let ?ds = "[draft_of caseCount (Some incremental) (Some 3), draft_of caseCount None (Some 293)]"
  let ?cols = "[\<lparr>col_name = Some ''New'', col_type = ''number''\<rparr>,
                \<lparr>col_name = Some ''Total'', col_type = ''number''\<rparr>]"
  let ?row = "[SpanGroup [\<lparr>span_start = 0, span_end = 1\<rparr>],
               SpanGroup [\<lparr>span_start = 4, span_end = 5\<rparr>]]"
  let ?cell = "(\<lparr>col_name = Some ''Total'', col_type = ''number''\<rparr>,
                SpanGroup [\<lparr>span_start = 4, span_end = 5\<rparr>])"
  note main = cumulative_by_maximum_or_total_header
    [where drafts = ?ds and i = 1 and j = 0 and cell = ?cell and columns = ?cols and row = ?row
       and header_name = "''Total''" and parse = digits_only_parser and doc = "''5 / 2''"]
  have i: "1 < length ?ds" and j: "0 < length ?ds" by simp_all
  have u: "aggregation (?ds ! 1) = None" by (simp add: draft_of_def)
  have inc: "aggregation (?ds ! 0) = Some incremental" by (simp add: draft_of_def)
  have same: "base_type (?ds ! 0) = base_type (?ds ! 1)" by (simp add: draft_of_def)
  have ty: "incident_type (resolve_row ?ds ! 1) = ''cumulativeCaseCount''" by code_simp
  then have marked: "incident_type (resolve_row ?ds ! 1) \<in>
                      {''cumulativeCaseCount'', ''cumulativeDeathCount''}" by simp
  from i u marked j inc same have h1:
    "1 < length ?ds \<and> aggregation (?ds ! 1) = None \<and>
     incident_type (resolve_row ?ds ! 1) \<in> {''cumulativeCaseCount'', ''cumulativeDeathCount''} \<and>
     0 < length ?ds \<and> aggregation (?ds ! 0) = Some incremental \<and>
     base_type (?ds ! 0) = base_type (?ds ! 1)"
    by (intro conjI)
  from main [THEN conjunct1] h1 have c1:
    "\<exists>v. incident_value (resolve_row ?ds ! 1) = Some v \<and>
         (\<forall>w. inc_value (?ds ! 0) = Some w \<longrightarrow> w < v)"
    by (rule mp)
  have tot: "py_contains ''total'' (py_lower ''Total'')" by code_simp
  have h3: "?cell \<in> set (zip ?cols ?row) \<and> value_truthy (snd ?cell) \<and>
            col_type (fst ?cell) = ''number'' \<and> col_name (fst ?cell) = Some ''Total'' \<and>
            py_contains ''total'' (py_lower ''Total'')"
    using tot by (simp add: value_truthy_def)
  from main [THEN conjunct2, THEN conjunct2] h3 have c3:
    "\<exists>inc\<in>set (resolve_row (row_incidents digits_only_parser ''5 / 2'' ?cols ?row)).
        incident_span inc = value_span (snd ?cell) \<and>
        incident_value inc = digits_only_parser (value_text ''5 / 2'' (snd ?cell)) \<and>
        incident_type inc \<in> {''cumulativeCaseCount'', ''cumulativeDeathCount''}"
    by (rule mp)
  have vs: "value_span (snd ?cell) = \<lparr>span_start = 4, span_end = 5\<rparr>"
    by (simp add: value_span_def)
  have vt: "digits_only_parser (value_text ''5 / 2'' (snd ?cell)) = Some 2"
    by (simp add: value_text_def value_span_def span_text_def digits_only_parser_def is_digit_def)
  from c3 have c3': "\<exists>inc\<in>set (resolve_row (row_incidents digits_only_parser ''5 / 2'' ?cols ?row)).
        incident_span inc = \<lparr>span_start = 4, span_end = 5\<rparr> \<and>
        incident_value inc = Some 2 \<and>
        incident_type inc \<in> {''cumulativeCaseCount'', ''cumulativeDeathCount''}"
    unfolding vs vt .
  from i u ty inc c1 tot c3' show ?thesis by (intro conjI)
qed

text \<open>
  The claim C3 as it is written fails: under the header \<^verbatim>\<open>New / Total\<close> the row
  \<^verbatim>\<open>5 / 2\<close> gives the incremental case count 5 and the cumulative case count 2.
\<close>

theorem total_header_cumulative_below_incremental:
  "map aggregation
     (row_incidents digits_only_parser ''5 / 2''
        [\<lparr>col_name = Some ''New'', col_type = ''number''\<rparr>,
         \<lparr>col_name = Some ''Total'', col_type = ''number''\<rparr>]
        [SpanGroup [\<lparr>span_start = 0, span_end = 1\<rparr>], SpanGroup [\<lparr>span_start = 4, span_end = 5\<rparr>]])
     = [Some incremental, Some cumulative] \<and>
   map base_type
     (row_incidents digits_only_parser ''5 / 2''
        [\<lparr>col_name = Some ''New'', col_type = ''number''\<rparr>,
         \<lparr>col_name = Some ''Total'', col_type = ''number''\<rparr>]
        [SpanGroup [\<lparr>span_start = 0, span_end = 1\<rparr>], SpanGroup [\<lparr>span_start = 4, span_end = 5\<rparr>]])
     = [caseCount, caseCount] \<and>
   map (\<lambda>inc. (incident_type inc, incident_value inc))
     (resolve_row (row_incidents digits_only_parser ''5 / 2''
        [\<lparr>col_name = Some ''New'', col_type = ''number''\<rparr>,
         \<lparr>col_name = Some ''Total'', col_type = ''number''\<rparr>]
        [SpanGroup [\<lparr>span_start = 0, span_end = 1\<rparr>], SpanGroup [\<lparr>span_start = 4, span_end = 5\<rparr>]]))
     = [(''caseCount'', Some 5), (''cumulativeCaseCount'', Some 2)] \<and>
   \<not> (2 :: int) > 5"
  by code_simp

section \<open>Properties of the gazetteer importer\<close>

lemma concat_batched_from: "concat (batched_from idx batch array) = batch @ array"
  by (induction array arbitrary: idx batch) simp_all

lemma concat_batched: "concat (batched array) = array"
  by (simp add: batched_def concat_batched_from)

lemma read_geoname_fields:
  assumes "read_geoname py_int py_float d = Inr g"
  shows "geonameid g = geonameid d" and "name g = name d"
    and "alternatenames g =
           (if length (alternatenames d) > 0 then py_split_comma (alternatenames d) else [])"
    and "parse_number py_int py_float (population d) (PyInt 0) = Inr (population g)"
    and "parse_number py_int py_float (latitude d) (PyInt 0) = Inr (latitude g)"
    and "parse_number py_int py_float (longitude d) (PyInt 0) = Inr (longitude g)"
  using assms by (auto simp: read_geoname_def split: sum.splits)

lemma read_geonames_append:
  "read_geonames py_int py_float xs = Inr gs1 \<Longrightarrow>
   read_geonames py_int py_float ys = Inr gs2 \<Longrightarrow>
   read_geonames py_int py_float (xs @ ys) = Inr (gs1 @ gs2)"
  by (induction xs arbitrary: gs1) (auto split: sum.splits)

lemma read_geonames_all:
  "read_geonames py_int py_float ds = Inr gs \<Longrightarrow>
   list_all2 (\<lambda>d g. read_geoname py_int py_float d = Inr g) ds gs"
  by (induction ds arbitrary: gs) (auto split: sum.splits)

lemma insert_geonames_result:
  "insert_geonames tbl ts = Inr tbl' \<Longrightarrow>
   tbl' = tbl @ ts \<and> (distinct (map fst tbl) \<longrightarrow> distinct (map fst tbl'))"
proof (induction ts arbitrary: tbl)
  case Nil
  then show ?case by simp
next
  case (Cons t ts)
  from Cons.prems have fresh: "fst t \<notin> set (map fst tbl)"
    and rest: "insert_geonames (tbl @ [t]) ts = Inr tbl'"
    by (simp_all split: if_splits)
  from Cons.IH [OF rest] have
    eq: "tbl' = (tbl @ [t]) @ ts" and
    d: "distinct (map fst (tbl @ [t])) \<longrightarrow> distinct (map fst tbl')"
    by blast+
  from fresh have "distinct (map fst tbl) \<Longrightarrow> distinct (map fst (tbl @ [t]))" by simp
  with d have "distinct (map fst tbl) \<longrightarrow> distinct (map fst tbl')" by blast
  with eq show ?case by simp
qed

lemma import_batches_result:
  "import_batches py_int py_float db batches = Inr db' \<Longrightarrow>
   \<exists>gs. read_geonames py_int py_float (concat batches) = Inr gs \<and>
        geonames_table db' = geonames_table db @ map geoname_tuple gs \<and>
        alternatenames_table db' =
          alternatenames_table db @ concat (map alternatename_tuples gs) \<and>
        (distinct (map fst (geonames_table db)) \<longrightarrow> distinct (map fst (geonames_table db')))"
proof (induction batches arbitrary: db)
  case Nil
  then show ?case by simp
next
  case (Cons batch batches)
  from Cons.prems obtain gs1 db1 where
    r: "read_geonames py_int py_float batch = Inr gs1" and
    b: "import_batch db gs1 = Inr db1" and
    rest: "import_batches py_int py_float db1 batches = Inr db'"
    by (auto split: sum.splits)
  from b obtain tbl where
    ins: "insert_geonames (geonames_table db) (map geoname_tuple gs1) = Inr tbl" and
    db1: "geonames_table db1 = tbl"
         "alternatenames_table db1 =
            alternatenames_table db @ concat (map alternatename_tuples gs1)"
    by (auto simp: import_batch_def split: sum.splits)
  from insert_geonames_result [OF ins] have
    tbl: "tbl = geonames_table db @ map geoname_tuple gs1"
         "distinct (map fst (geonames_table db)) \<longrightarrow> distinct (map fst tbl)"
    by blast+
  from Cons.IH [OF rest] obtain gs2 where
    r2: "read_geonames py_int py_float (concat batches) = Inr gs2" and
    g2: "geonames_table db' = geonames_table db1 @ map geoname_tuple gs2" and
    a2: "alternatenames_table db' =
           alternatenames_table db1 @ concat (map alternatename_tuples gs2)" and
    d2: "distinct (map fst (geonames_table db1)) \<longrightarrow> distinct (map fst (geonames_table db'))"
    by blast
  have "read_geonames py_int py_float (concat (batch # batches)) = Inr (gs1 @ gs2)"
    using read_geonames_append [OF r r2] by simp
  moreover have "geonames_table db' = geonames_table db @ map geoname_tuple (gs1 @ gs2)"
    using g2 db1(1) tbl(1) by simp
  moreover have "alternatenames_table db' =
      alternatenames_table db @ concat (map alternatename_tuples (gs1 @ gs2))"
    using a2 db1(2) by simp
  moreover have "distinct (map fst (geonames_table db)) \<longrightarrow> distinct (map fst (geonames_table db'))"
    using d2 db1(1) tbl(2) by simp
  ultimately show ?case by blast
qed

lemma filter_concat_key:
  assumes "distinct (map key xs)" and "x \<in> set xs"
    and "\<And>y e. y \<in> set xs \<Longrightarrow> e \<in> set (f y) \<Longrightarrow> k e = key y"
  shows "filter (\<lambda>e. k e = key x) (concat (map f xs)) = f x"
  using assms
proof (induction xs)
  case Nil
  then show ?case by simp
next
  case (Cons y ys)
  have none: "filter (\<lambda>e. k e = c) (concat (map f zs)) = []"
    if "c \<notin> key ` set zs" "\<And>z e. z \<in> set zs \<Longrightarrow> e \<in> set (f z) \<Longrightarrow> k e = key z" for c zs
    using that by (induction zs) (auto simp: filter_empty_conv)
  show ?case
  proof (cases "x = y")
    case True
    have "filter (\<lambda>e. k e = key x) (f y) = f y"
      using Cons.prems(3) [of y] True by (simp add: filter_id_conv)
    moreover have "filter (\<lambda>e. k e = key x) (concat (map f ys)) = []"
      using Cons.prems(1,3) True by (intro none) auto
    ultimately show ?thesis using True by simp
  next
    case False
    with Cons.prems have x: "x \<in> set ys" and ne: "key y \<noteq> key x" by auto
    have "filter (\<lambda>e. k e = key x) (f y) = []"
      using Cons.prems(3) [of y] ne by (auto simp: filter_empty_conv)
    moreover have "filter (\<lambda>e. k e = key x) (concat (map f ys)) = f x"
      using Cons.prems x by (intro Cons.IH) auto
    ultimately show ?thesis by simp
  qed
qed

lemma fst_geoname_tuple: "fst (geoname_tuple g) = geonameid g"
  by (simp add: geoname_tuple_def)

lemma alternatename_tuples_key: "e \<in> set (alternatename_tuples g) \<Longrightarrow> fst e = geonameid g"
  by (auto simp: alternatename_tuples_def)

lemma alternatename_tuples_names:
  "map (\<lambda>e. fst (snd e)) (alternatename_tuples g) = remdups (alternatenames g @ [name g])"
  by (simp add: alternatename_tuples_def comp_def)

lemma map_of_computed:
  "x \<in> set ks \<Longrightarrow> map_of (map (\<lambda>k. (k, F k)) ks) x = Some (F x)"
  by (induction ks) auto

lemma read_geonames_member:
  assumes "read_geonames py_int py_float ds = Inr gs" and "d \<in> set ds"
  shows "\<exists>g\<in>set gs. read_geoname py_int py_float d = Inr g"
proof -
  have "list_all2 P xs ys \<Longrightarrow> x \<in> set xs \<Longrightarrow> \<exists>y\<in>set ys. P x y" for P xs ys x
    by (induction rule: list_all2_induct) auto
  from this [OF read_geonames_all [OF assms(1)] assms(2)] show ?thesis .
qed

lemma imported_entries:
  assumes a: "alternatenames_table db = concat (map alternatename_tuples gs)"
    and dist: "distinct (map geonameid gs)" and g: "g \<in> set gs"
  shows "filter (\<lambda>e. fst e = geonameid g) (alternatenames_table db) = alternatename_tuples g"
  unfolding a using dist g
  by (rule filter_concat_key) (rule alternatename_tuples_key)

lemma imported_joined_rows:
  assumes t: "geonames_table db = map geoname_tuple gs"
    and a: "alternatenames_table db = concat (map alternatename_tuples gs)"
    and dist: "distinct (map geonameid gs)"
  shows "joined_rows db =
           concat (map (\<lambda>g. map (\<lambda>e. (geonameid g, fst (snd e))) (alternatename_tuples g)) gs)"
proof -
  let ?P = "\<lambda>place. map (\<lambda>entry. (fst place, fst (snd entry)))
                 (filter (\<lambda>entry. fst entry = fst place) (alternatenames_table db))"
  let ?F = "\<lambda>g. map (\<lambda>e. (geonameid g, fst (snd e))) (alternatename_tuples g)"
  have "map ?P (map geoname_tuple gs) = map (\<lambda>g. ?P (geoname_tuple g)) gs"
    by (simp add: comp_def)
  also have "\<dots> = map ?F gs"
    by (rule map_cong [OF refl]) (simp add: fst_geoname_tuple imported_entries [OF a dist])
  finally have eq: "map ?P (map geoname_tuple gs) = map ?F gs" .
  show ?thesis unfolding joined_rows_def t eq ..
qed

lemma imported_count:
  assumes t: "geonames_table db = map geoname_tuple gs"
    and a: "alternatenames_table db = concat (map alternatename_tuples gs)"
    and dist: "distinct (map geonameid gs)" and g: "g \<in> set gs"
  shows "map_of (alternatename_counts db) (geonameid g) = Some (length (alternatename_tuples g))"
proof -
  let ?f = "\<lambda>g. map (\<lambda>e. (geonameid g, fst (snd e))) (alternatename_tuples g)"
  have j: "joined_rows db = concat (map ?f gs)" by (rule imported_joined_rows [OF t a dist])
  have fl: "filter (\<lambda>joined. fst joined = geonameid g) (joined_rows db) = ?f g"
    unfolding j using dist g by (rule filter_concat_key) auto
  have "alternatename_tuples g \<noteq> []" by (simp add: alternatename_tuples_def)
  then have "?f g \<noteq> []" by simp
  with fl have "\<exists>joined \<in> set (joined_rows db). fst joined = geonameid g"
    by (metis (mono_tags, lifting) filter_empty_conv)
  then have "geonameid g \<in> set (remdups (map fst (joined_rows db)))" by force
  then have "map_of (alternatename_counts db) (geonameid g) =
      Some (length (filter (\<lambda>joined. fst joined = geonameid g) (joined_rows db)))"
    unfolding alternatename_counts_def by (rule map_of_computed)
  with fl show ?thesis by simp
qed

text \<open>
  C6: after a build that returns, the database holds for every row of the dataset
  one count, and that count is the number of alternate-name entries inserted for the
  place; the names of these entries are pairwise different and are exactly the pieces
  of the alternate-names field between its commas (none for an empty field) together
  with the canonical name.
\<close>

theorem alternatename_count_equals_distinct_entries:
  assumes built: "create_sqlite_db ANNIE_DB_PATH py_int py_float csv_rows w = Inr w'"
    and fresh: "db_file w = None"
  shows "\<exists>db. db_file w' = Some db \<and>
           (\<forall>d\<in>set csv_rows.
              map_of (alternatename_counts_table db) (geonameid d) =
                Some (length (filter (\<lambda>entry. fst entry = geonameid d) (alternatenames_table db))) \<and>
              distinct (map (\<lambda>entry. fst (snd entry))
                         (filter (\<lambda>entry. fst entry = geonameid d) (alternatenames_table db))) \<and>
              set (map (\<lambda>entry. fst (snd entry))
                     (filter (\<lambda>entry. fst entry = geonameid d) (alternatenames_table db))) =
                set (if alternatenames d = [] then [] else py_split_comma (alternatenames d)) \<union>
                {name d} \<and>
              length (filter (\<lambda>entry. fst entry = geonameid d) (alternatenames_table db)) =
                card (set (if alternatenames d = [] then [] else py_split_comma (alternatenames d)) \<union>
                      {name d}))"
proof -
  from built fresh obtain db0 where
    imp: "import_batches py_int py_float empty_database (batched csv_rows) = Inr db0" and
    w': "db_file w' = Some (db0\<lparr>alternatename_index := True,
                                alternatename_counts_table := alternatename_counts db0\<rparr>)"
    by (auto simp: create_sqlite_db_def split: sum.splits)
  let ?db = "db0\<lparr>alternatename_index := True,
                 alternatename_counts_table := alternatename_counts db0\<rparr>"
  from import_batches_result [OF imp] obtain gs where
    r: "read_geonames py_int py_float csv_rows = Inr gs" and
    t: "geonames_table db0 = map geoname_tuple gs" and
    a: "alternatenames_table db0 = concat (map alternatename_tuples gs)" and
    dd: "distinct (map fst (geonames_table db0))"
    by (auto simp: concat_batched empty_database_def)
  have ids: "map fst (map geoname_tuple gs) = map geonameid gs"
    by (simp add: fst_geoname_tuple)
  from dd have "distinct (map fst (map geoname_tuple gs))" unfolding t .
  then have dist: "distinct (map geonameid gs)" unfolding ids .
  have row: "map_of (alternatename_counts_table ?db) (geonameid d) =
                Some (length (filter (\<lambda>entry. fst entry = geonameid d) (alternatenames_table ?db))) \<and>
              distinct (map (\<lambda>entry. fst (snd entry))
                         (filter (\<lambda>entry. fst entry = geonameid d) (alternatenames_table ?db))) \<and>
              set (map (\<lambda>entry. fst (snd entry))
                     (filter (\<lambda>entry. fst entry = geonameid d) (alternatenames_table ?db))) =
                set (if alternatenames d = [] then [] else py_split_comma (alternatenames d)) \<union>
                {name d} \<and>
              length (filter (\<lambda>entry. fst entry = geonameid d) (alternatenames_table ?db)) =
                card (set (if alternatenames d = [] then [] else py_split_comma (alternatenames d)) \<union>
                      {name d})"
    if d: "d \<in> set csv_rows" for d
  proof -
    from read_geonames_member [OF r d] obtain g where
      g: "g \<in> set gs" and rg: "read_geoname py_int py_float d = Inr g"
      by blast
    note f = read_geoname_fields(1-3) [OF rg]
    have e: "filter (\<lambda>entry. fst entry = geonameid d) (alternatenames_table ?db) =
               alternatename_tuples g"
      using imported_entries [OF a dist g] f(1) by simp
    have c: "map_of (alternatename_counts_table ?db) (geonameid d) =
               Some (length (alternatename_tuples g))"
      using imported_count [OF t a dist g] f(1) by simp
    have n: "map (\<lambda>entry. fst (snd entry)) (alternatename_tuples g) =
               remdups ((if alternatenames d = [] then [] else py_split_comma (alternatenames d)) @
                        [name d])"
      using f(2,3) by (simp add: alternatename_tuples_names)
    have l: "length (alternatename_tuples g) =
               length (map (\<lambda>entry. fst (snd entry)) (alternatename_tuples g))" by simp
    show ?thesis
      unfolding e c l n by (simp add: length_remdups_card_conv)
  qed
  from w' row show ?thesis by blast
qed

lemmas importer_example_defs = create_sqlite_db_def batched_def import_batch_def read_geoname_def
  parse_number_def example_int_def example_float_def example_row_def empty_world_def
  empty_database_def digits_only_parser_def is_digit_def geoname_tuple_def
  alternatename_tuples_def py_strip_def py_lower_def py_lower_char_def py_isspace_def

theorem alternatename_count_equals_distinct_entries_witness:
  "\<exists>w' db. create_sqlite_db ''annie.sqlitedb'' example_int example_float
              [example_row ''1'' ''Rome'' ''Roma,Rome,Rom'', example_row ''2'' ''Bonn'' []]
              empty_world = Inr w' \<and>
           db_file w' = Some db \<and>
           map_of (alternatename_counts_table db) ''1'' = Some 3 \<and>
           map_of (alternatename_counts_table db) ''2'' = Some 1"
proof -
  let ?rows = "[example_row ''1'' ''Rome'' ''Roma,Rome,Rom'', example_row ''2'' ''Bonn'' []]"
  let ?run = "create_sqlite_db ''annie.sqlitedb'' example_int example_float ?rows empty_world"
  have "\<not> isl ?run" by (simp add: importer_example_defs)
  then obtain w' where built: "?run = Inr w'" by (cases ?run) auto
  have fresh: "db_file empty_world = None" by (simp add: empty_world_def)
  from alternatename_count_equals_distinct_entries [OF built fresh] obtain db where
    db: "db_file w' = Some db" and
    every: "\<And>d. d \<in> set ?rows \<Longrightarrow>
      map_of (alternatename_counts_table db) (geonameid d) =
        Some (length (filter (\<lambda>entry. fst entry = geonameid d) (alternatenames_table db))) \<and>
      length (filter (\<lambda>entry. fst entry = geonameid d) (alternatenames_table db)) =
        card (set (if alternatenames d = [] then [] else py_split_comma (alternatenames d)) \<union>
              {name d})"
    by blast
  have s: "py_split_comma ''Roma,Rome,Rom'' = [''Roma'', ''Rome'', ''Rom'']" by simp
  from every [of "example_row ''1'' ''Rome'' ''Roma,Rome,Rom''"]
  have c1: "map_of (alternatename_counts_table db) ''1'' = Some 3"
    by (simp add: example_row_def s card_insert_if)
  from every [of "example_row ''2'' ''Bonn'' []"]
  have c2: "map_of (alternatename_counts_table db) ''2'' = Some 1"
    by (simp add: example_row_def card_insert_if)
  from built db c1 c2 show ?thesis by blast
qed

text \<open>
  C7, amended: the importer always enters the canonical name of a place among its
  alternate-name entries, so every place has at least one entry; an empty
  alternate-names field adds no entry; and when the canonical name is not empty and
  no piece of the alternate-names field is empty, no entry has an empty name.
\<close>

theorem canonical_name_always_entered:
  assumes "read_geoname py_int py_float d = Inr g"
  shows "alternatename_tuples g \<noteq> [] \<and>
         name d \<in> set (map (\<lambda>entry. fst (snd entry)) (alternatename_tuples g)) \<and>
         (alternatenames d = [] \<longrightarrow>
            map (\<lambda>entry. fst (snd entry)) (alternatename_tuples g) = [name d]) \<and>
         (name d \<noteq> [] \<and> (alternatenames d = [] \<or> [] \<notin> set (py_split_comma (alternatenames d)))
            \<longrightarrow> [] \<notin> set (map (\<lambda>entry. fst (snd entry)) (alternatename_tuples g)))"
  using read_geoname_fields(2,3) [OF assms]
  by (auto simp: alternatename_tuples_names alternatename_tuples_def)

theorem canonical_name_always_entered_witness:
  "\<exists>g. read_geoname example_int example_float (example_row ''1'' ''Rome'' ''Roma,Rom'') = Inr g \<and>
        map (\<lambda>entry. fst (snd entry)) (alternatename_tuples g) = [''Roma'', ''Rom'', ''Rome''] \<and>
        [] \<notin> set (map (\<lambda>entry. fst (snd entry)) (alternatename_tuples g))"
proof -
  let ?d = "example_row ''1'' ''Rome'' ''Roma,Rom''"
  have "\<not> isl (read_geoname example_int example_float ?d)"
    by (simp add: importer_example_defs)
  then obtain g where g: "read_geoname example_int example_float ?d = Inr g"
    by (cases "read_geoname example_int example_float ?d") auto
  have s: "py_split_comma ''Roma,Rom'' = [''Roma'', ''Rom'']" by simp
  from read_geoname_fields(2,3) [OF g] have nm: "name g = ''Rome''"
    and alts: "alternatenames g = [''Roma'', ''Rom'']"
    by (simp_all add: example_row_def s)
  have n: "map (\<lambda>entry. fst (snd entry)) (alternatename_tuples g) = [''Roma'', ''Rom'', ''Rome'']"
    by (simp add: alternatename_tuples_names nm alts)
  have h: "name ?d \<noteq> [] \<and> (alternatenames ?d = [] \<or> [] \<notin> set (py_split_comma (alternatenames ?d)))"
    by (simp add: example_row_def s)
  note last = canonical_name_always_entered [OF g, THEN conjunct2, THEN conjunct2, THEN conjunct2]
  from last h have "[] \<notin> set (map (\<lambda>entry. fst (snd entry)) (alternatename_tuples g))"
    by (rule mp)
  with g n show ?thesis by (intro exI [of _ g] conjI)
qed

text \<open>
  The claim C7 as it is written fails: the field \<^verbatim>\<open>Roma,,Rom\<close> has an empty
  piece, which is entered as an alternate name, and so is an empty canonical name.
\<close>

theorem empty_alternate_name_entered:
  "(case create_sqlite_db ''annie.sqlitedb'' example_int example_float
          [example_row ''1'' ''Rome'' ''Roma,,Rom''] empty_world of
      Inl e \<Rightarrow> False
    | Inr w' \<Rightarrow> (case db_file w' of
                  None \<Rightarrow> False
                | Some db \<Rightarrow> (''1'', [], []) \<in> set (alternatenames_table db))) \<and>
   (case create_sqlite_db ''annie.sqlitedb'' example_int example_float
          [example_row ''2'' [] ''Roma''] empty_world of
      Inl e \<Rightarrow> False
    | Inr w' \<Rightarrow> (case db_file w' of
                  None \<Rightarrow> False
                | Some db \<Rightarrow> (''2'', [], []) \<in> set (alternatenames_table db)))"
  by (simp add: importer_example_defs)

text \<open>
  C8: when a database file exists at the target path, the build returns without an
  exception, has printed one line, and leaves the file as it was, whatever the
  dataset holds.
\<close>

theorem existing_database_left_alone:
  "db_file w \<noteq> None \<longrightarrow>
     (\<exists>w'. create_sqlite_db ANNIE_DB_PATH py_int py_float csv_rows w = Inr w' \<and>
           db_file w' = db_file w \<and>
           printed w' = printed w @ [Already_exists ANNIE_DB_PATH])"
  by (auto simp: create_sqlite_db_def split: option.splits)

theorem existing_database_left_alone_witness:
  "db_file (empty_world\<lparr>db_file := Some empty_database\<rparr>) \<noteq> None \<and>
   (\<exists>w'. create_sqlite_db ''annie.sqlitedb'' example_int example_float
            [example_row ''1'' ''Rome'' ''Roma'', example_row ''1'' ''Rome'' ''Roma'']
            (empty_world\<lparr>db_file := Some empty_database\<rparr>) = Inr w' \<and>
         db_file w' = Some empty_database \<and>
         printed w' = [Already_exists ''annie.sqlitedb''])"
  using existing_database_left_alone
          [of "empty_world\<lparr>db_file := Some empty_database\<rparr>" "''annie.sqlitedb''"
              example_int example_float
              "[example_row ''1'' ''Rome'' ''Roma'', example_row ''1'' ''Rome'' ''Roma'']"]
  by (simp add: empty_world_def)

text \<open>
  C9: for every row, population, latitude and longitude are parsed with
  \<^verbatim>\<open>int\<close> first, then with \<^verbatim>\<open>float\<close>, and become 0 when both fail; on a text the
  two built-in functions raise nothing but \<^verbatim>\<open>ValueError\<close>, and then neither the
  parse nor the reading of the row raises.
\<close>

theorem parse_number_never_raises_on_text:
  assumes int_raises: "\<forall>s e. py_int s = Inl e \<longrightarrow> e = ValueError"
    and float_raises: "\<forall>s e. py_float s = Inl e \<longrightarrow> e = ValueError"
  shows "parse_number py_int py_float num default_value =
           Inr (case py_int num of
                  Inr i \<Rightarrow> PyInt i
                | Inl e \<Rightarrow> (case py_float num of
                             Inr f \<Rightarrow> PyFloat f
                           | Inl e' \<Rightarrow> default_value)) \<and>
         (\<exists>g. read_geoname py_int py_float d = Inr g \<and>
              parse_number py_int py_float (population d) (PyInt 0) = Inr (population g) \<and>
              parse_number py_int py_float (latitude d) (PyInt 0) = Inr (latitude g) \<and>
              parse_number py_int py_float (longitude d) (PyInt 0) = Inr (longitude g))"
proof -
  have p: "parse_number py_int py_float n dv =
           Inr (case py_int n of
                  Inr i \<Rightarrow> PyInt i
                | Inl e \<Rightarrow> (case py_float n of
                             Inr f \<Rightarrow> PyFloat f
                           | Inl e' \<Rightarrow> dv))" for n dv
    using int_raises float_raises by (auto simp: parse_number_def split: sum.splits)
  then have "\<exists>g. read_geoname py_int py_float d = Inr g"
    by (simp add: read_geoname_def)
  then obtain g where g: "read_geoname py_int py_float d = Inr g" ..
  from read_geoname_fields(4-6) [OF g] g p show ?thesis by blast
qed

theorem parse_number_never_raises_on_text_witness:
  "parse_number example_int example_float ''12'' (PyInt 0) = Inr (PyInt 12) \<and>
   parse_number example_int example_float ''0.5'' (PyInt 0) = Inr (PyFloat (1 / 2)) \<and>
   parse_number example_int example_float ''unknown'' (PyInt 0) = Inr (PyInt 0) \<and>
   (\<exists>g. read_geoname example_int example_float (example_row ''1'' ''Rome'' ''Roma'') = Inr g \<and>
        population g = PyInt 0 \<and> latitude g = PyFloat (1 / 2) \<and> longitude g = PyInt 12)"
proof -
  have i: "\<forall>s e. example_int s = Inl e \<longrightarrow> e = ValueError"
    by (auto simp: example_int_def split: option.splits)
  have f: "\<forall>s e. example_float s = Inl e \<longrightarrow> e = ValueError"
    by (auto simp: example_float_def split: if_splits)
  note main = parse_number_never_raises_on_text [OF i f]
  have ev: "example_int ''12'' = Inr 12" "isl (example_int ''0.5'')" "isl (example_int ''unknown'')"
    "example_float ''0.5'' = Inr (1 / 2)" "isl (example_float ''unknown'')"
    by (simp_all add: example_int_def example_float_def digits_only_parser_def is_digit_def)
  have p1: "parse_number example_int example_float ''12'' (PyInt 0) = Inr (PyInt 12)"
    using main [of "''12''" "PyInt 0", THEN conjunct1] ev by (simp split: sum.splits)
  have p2: "parse_number example_int example_float ''0.5'' (PyInt 0) = Inr (PyFloat (1 / 2))"
    using main [of "''0.5''" "PyInt 0", THEN conjunct1] ev by (auto split: sum.splits)
  have p3: "parse_number example_int example_float ''unknown'' (PyInt 0) = Inr (PyInt 0)"
    using main [of "''unknown''" "PyInt 0", THEN conjunct1] ev by (auto split: sum.splits)
  from main [of "''12''" "PyInt 0" "example_row ''1'' ''Rome'' ''Roma''", THEN conjunct2]
  obtain g where g: "read_geoname example_int example_float (example_row ''1'' ''Rome'' ''Roma'') = Inr g"
    and "parse_number example_int example_float ''unknown'' (PyInt 0) = Inr (population g)"
    and "parse_number example_int example_float ''0.5'' (PyInt 0) = Inr (latitude g)"
    and "parse_number example_int example_float ''12'' (PyInt 0) = Inr (longitude g)"
    by (auto simp: example_row_def)
  with p1 p2 p3 show ?thesis by auto
qed

end
